theory Spec2Isabelle
  imports Complex_Main "HOL-Library.Word"
begin

section \<open>Multitaper line-noise removal: the two \<open>line_filter\<close> implementations\<close>

text \<open>
  The repository holds two generations of the same filter:
  \<^item> \<^verbatim>\<open>src/PreProcess/filter.py\<close>: \<open>line_filter\<close>, \<open>mt_spectrum_proc\<close>,
    \<open>_mt_remove_win\<close>, \<open>_mt_remove\<close>, \<open>_prep_for_filtering\<close>;
  \<^item> \<^verbatim>\<open>src/ieeg/mt_filter.py\<close>: \<open>line_filter\<close>, \<open>mt_spectrum_proc\<close>,
    class \<open>WindowingRemover\<close>, \<open>_mt_remove\<close>, \<open>_prep_for_filtering\<close>.
  Definitions without a prefix follow \<^verbatim>\<open>filter.py\<close>; those of \<^verbatim>\<open>mt_filter.py\<close> carry the
  prefix \<open>ieeg_\<close> (or the class name). A leading underscore of a Python name is dropped.
  Samples, frequencies and statistics are 64-bit floats in the source; they are idealised
  as real (and complex) numbers here, so rounding error is outside the model.
\<close>

subsection \<open>Exceptions\<close>

datatype error =
  ValueError | TypeError | AttributeError | AssertionError | ZeroDivisionError

subsection \<open>Python and numpy numbers (the \<open>ListNum\<close> arguments)\<close>

text \<open>
  \<open>ListNum = TypeVar("ListNum", int, float, np.ndarray, list, tuple)\<close>. A 1-D numpy
  array is homogeneous: it has an integer or a floating dtype. The integer dtype is
  \<open>int64\<close>, numpy's default: a 64-bit word read as a signed number, whose arithmetic wraps
  around. An integer argument is one of that range, \<open>-2**63 .. 2**63 - 1\<close>, whether it
  comes as a Python \<open>int\<close> or as a numpy scalar; a larger Python integer would become a
  \<open>uint64\<close> or an object array in numpy, and is outside the model.
\<close>

datatype npnum = PyInt "64 word" | PyFloat real

datatype ndarray1 = IntArray "64 word list" | FloatArray "real list"

datatype listnum = Scalar npnum | PyList "npnum list" | NdArray ndarray1

fun to_real :: "npnum \<Rightarrow> real" where
  "to_real (PyInt i) = of_int (sint i)"
| "to_real (PyFloat r) = r"

fun is_int :: "npnum \<Rightarrow> bool" where
  "is_int (PyInt i) = True"
| "is_int (PyFloat r) = False"

fun the_int :: "npnum \<Rightarrow> 64 word" where
  "the_int (PyInt i) = i"
| "the_int (PyFloat r) = word_of_int \<lfloor>r\<rfloor>"

fun arr_len :: "ndarray1 \<Rightarrow> nat" where
  "arr_len (IntArray xs) = length xs"
| "arr_len (FloatArray xs) = length xs"

fun arr_reals :: "ndarray1 \<Rightarrow> real list" where
  "arr_reals (IntArray xs) = map (\<lambda>v. of_int (sint v)) xs"
| "arr_reals (FloatArray xs) = xs"

text \<open>\<open>a[i]\<close>: the element as a numpy scalar of the array's dtype.\<close>

fun arr_items :: "ndarray1 \<Rightarrow> npnum list" where
  "arr_items (IntArray xs) = map PyInt xs"
| "arr_items (FloatArray xs) = map PyFloat xs"

text \<open>
  \<open>np.atleast_1d\<close>: a scalar becomes a one-element array; a list or tuple becomes an
  array whose dtype is integer only when it is non-empty and every item is an integer.
\<close>

fun np_atleast_1d :: "listnum \<Rightarrow> ndarray1" where
  "np_atleast_1d (Scalar (PyInt i)) = IntArray [i]"
| "np_atleast_1d (Scalar (PyFloat r)) = FloatArray [r]"
| "np_atleast_1d (PyList xs) =
     (if xs \<noteq> [] \<and> list_all is_int xs then IntArray (map the_int xs)
      else FloatArray (map to_real xs))"
| "np_atleast_1d (NdArray a) = a"

text \<open>\<open>np.ones_like(a)\<close>: ones of the shape and dtype of \<open>a\<close>.\<close>

fun np_ones_like :: "ndarray1 \<Rightarrow> ndarray1" where
  "np_ones_like (IntArray xs) = IntArray (map (\<lambda>_. 1) xs)"
| "np_ones_like (FloatArray xs) = FloatArray (map (\<lambda>_. 1) xs)"

text \<open>
  \<open>scalar * array\<close>: numpy promotes to the floating dtype as soon as one operand is
  floating; only \<open>int64\<close> times \<open>int64\<close> stays \<open>int64\<close>, and that product wraps around.
\<close>

fun np_scalar_mul :: "npnum \<Rightarrow> ndarray1 \<Rightarrow> ndarray1" where
  "np_scalar_mul (PyInt s) (IntArray xs) = IntArray (map (\<lambda>v. s * v) xs)"
| "np_scalar_mul s a = FloatArray (map (\<lambda>v. to_real s * v) (arr_reals a))"

text \<open>\<open>array / 200.0\<close>: true division, always floating.\<close>

definition np_true_divide :: "ndarray1 \<Rightarrow> real \<Rightarrow> ndarray1" where
  "np_true_divide a c = FloatArray (map (\<lambda>v. v / c) (arr_reals a))"

text \<open>
  \<open>np.any(notch_widths < 0)\<close>. The comparison is evaluated first: on a number or an
  array it is elementwise; on a Python list or tuple, \<open>list < int\<close> raises TypeError.
\<close>

fun np_any_lt_zero :: "listnum \<Rightarrow> error + bool" where
  "np_any_lt_zero (Scalar s) = Inr (to_real s < 0)"
| "np_any_lt_zero (NdArray a) = Inr (list_ex (\<lambda>v. v < 0) (arr_reals a))"
| "np_any_lt_zero (PyList xs) = Inl TypeError"

subsection \<open>\<open>line_filter\<close>: the notch-width block (both files, same text)\<close>

text \<open>
  \<^verbatim>\<open>
  if freqs is not None:
      freqs = np.atleast_1d(freqs)
      if notch_widths is None:
          notch_widths = freqs / 200.0
      elif np.any(notch_widths < 0):
          raise ValueError('notch_widths must be >= 0')
      else:
          notch_widths = np.atleast_1d(notch_widths)
          if len(notch_widths) == 1:
              notch_widths = notch_widths[0] * np.ones_like(freqs)
          elif len(notch_widths) != len(freqs):
              raise ValueError(...)
  \<close>
  The result is the pair \<open>(freqs, notch_widths)\<close> as the rest of \<open>line_filter\<close> sees it.
\<close>

definition check_notch_widths ::
  "listnum option \<Rightarrow> listnum option \<Rightarrow> error + (ndarray1 option \<times> listnum option)" where
  "check_notch_widths freqs notch_widths =
     (case freqs of
        None \<Rightarrow> Inr (None, notch_widths)
      | Some fr \<Rightarrow>
          (let freqs1 = np_atleast_1d fr in
           case notch_widths of
             None \<Rightarrow> Inr (Some freqs1, Some (NdArray (np_true_divide freqs1 200)))
           | Some nw \<Rightarrow>
               (case np_any_lt_zero nw of
                  Inl e \<Rightarrow> Inl e
                | Inr True \<Rightarrow> Inl ValueError
                | Inr False \<Rightarrow>
                    (let nw1 = np_atleast_1d nw in
                     if arr_len nw1 = 1
                     then Inr (Some freqs1,
                               Some (NdArray (np_scalar_mul (hd (arr_items nw1)) (np_ones_like freqs1))))
                     else if arr_len nw1 \<noteq> arr_len freqs1 then Inl ValueError
                     else Inr (Some freqs1, Some (NdArray nw1))))))"

subsection \<open>Window overlap (\<open>_mt_remove_win\<close> and \<open>WindowingRemover.__call__\<close>)\<close>

text \<open>\<^verbatim>\<open>n_overlap = (n_samples + 1) // 2\<close>\<close>

definition n_overlap :: "nat \<Rightarrow> nat" where
  "n_overlap n_samples = (n_samples + 1) div 2"

subsection \<open>What the filter takes from elsewhere\<close>

text \<open>
  The numerical kernels are not among the repository's source files, and two functions
  belong to libraries (scipy, MNE). They are parameters of the model:
  \<^item> \<open>mt_params n_times sfreq bandwidth low_bias adaptive\<close>: the taper bank
    (\<open>mt_params\<close> / \<open>multitaper.params\<close>); it returns the taper matrix \<open>window_fun\<close>
    (one row per taper, \<open>n_times\<close> columns) or raises;
  \<^item> \<open>f_ppf q dfn dfd\<close>: \<open>scipy.stats.f.ppf\<close>, the quantile function of the F distribution;
  \<^item> \<open>spectrum x window_fun sfreq\<close>: \<open>mt_spectra\<close> followed by \<open>sine_f_test\<close>; for each
    frequency bin, in order, its frequency \<open>freqs[i]\<close>, F statistic \<open>f_stat[0, i]\<close> and
    amplitude estimate \<open>A[0, i]\<close>;
  \<^item> \<open>to_samples\<close>: a duration string or a sample count, and the sampling rate, to samples;
  \<^item> \<open>picks_to_idx n_chan picks\<close>: MNE's \<open>_picks_to_idx\<close>.
\<close>

record bin =
  bin_freq :: real
  bin_f_stat :: real
  bin_A :: complex

type_synonym window = "real list list"

datatype duration = Seconds_str string | Samples nat

record deps =
  mt_params :: "nat \<Rightarrow> real \<Rightarrow> real option \<Rightarrow> bool \<Rightarrow> bool \<Rightarrow> error + window"
  f_ppf :: "real \<Rightarrow> int \<Rightarrow> int \<Rightarrow> real"
  spectrum :: "real list \<Rightarrow> window \<Rightarrow> real \<Rightarrow> bin list"
  to_samples :: "duration \<Rightarrow> real \<Rightarrow> error + nat"
  picks_to_idx :: "nat \<Rightarrow> int list option \<Rightarrow> error + int list"

text \<open>\<open>window_fun.shape[-1]\<close>: the number of columns of the taper matrix.\<close>

fun n_cols :: "window \<Rightarrow> nat" where
  "n_cols [] = 0"
| "n_cols (r # rs) = length r"

subsection \<open>The threshold\<close>

text \<open>
  \<^verbatim>\<open>filter.py\<close>, inside \<open>line_filter\<close>:
  \<^verbatim>\<open>
  def get_window_thresh(n_times: int = filter_length):
      window_fun, _, _ = mt_params(n_times, fs, mt_bandwidth, low_bias, adaptive, verbose=True)
      threshold = stats.f.ppf(1 - p_value / n_times, 2, 2 * len(window_fun) - 2)
      return window_fun, threshold
  \<close>
  The closure's free variables are the first arguments here; \<open>None\<close> for \<open>n_times\<close> is the
  call without argument. Dividing the Python float \<open>p_value\<close> by the integer zero raises.
\<close>

definition get_window_thresh ::
  "deps \<Rightarrow> real \<Rightarrow> real option \<Rightarrow> bool \<Rightarrow> bool \<Rightarrow> real \<Rightarrow> nat \<Rightarrow> nat option
    \<Rightarrow> error + (window \<times> real)" where
  "get_window_thresh d fs mt_bandwidth low_bias adaptive p_value filter_length n_times_arg =
     (let n_times = (case n_times_arg of None \<Rightarrow> filter_length | Some n \<Rightarrow> n) in
      case mt_params d n_times fs mt_bandwidth low_bias adaptive of
        Inl e \<Rightarrow> Inl e
      | Inr window_fun \<Rightarrow>
          if n_times = 0 then Inl ZeroDivisionError
          else Inr (window_fun,
                    f_ppf d (1 - p_value / real n_times) 2 (2 * int (length window_fun) - 2)))"

text \<open>
  \<^verbatim>\<open>mt_filter.py\<close>: the class \<open>WindowingRemover\<close>. Its constructor is
  \<^verbatim>\<open>
  def __init__(self, sfreq, line_freqs, notch_width, filter_length, low_bias,
               adaptive, bandwidth, p_value, verbose=None)
  \<close>
  and stores each argument in the attribute of the same name. \<open>bandwidth\<close> and \<open>p_value\<close>
  may each hold \<open>None\<close> or a float, as Python does not tell them apart.
\<close>

record WindowingRemover =
  self_sfreq :: real
  self_line_freqs :: "ndarray1 option"
  self_notch_width :: "listnum option"
  self_p_value :: "real option"
  self_filter_length :: nat
  self_low_bias :: bool
  self_adaptive :: bool
  self_bandwidth :: "real option"

definition WindowingRemover_init ::
  "real \<Rightarrow> ndarray1 option \<Rightarrow> listnum option \<Rightarrow> nat \<Rightarrow> bool \<Rightarrow> bool \<Rightarrow> real option
    \<Rightarrow> real option \<Rightarrow> WindowingRemover" where
  "WindowingRemover_init sfreq line_freqs notch_width filter_length low_bias adaptive
       bandwidth p_value =
     \<lparr>self_sfreq = sfreq, self_line_freqs = line_freqs, self_notch_width = notch_width,
      self_p_value = p_value, self_filter_length = filter_length, self_low_bias = low_bias,
      self_adaptive = adaptive, self_bandwidth = bandwidth\<rparr>"

text \<open>
  \<^verbatim>\<open>
  @cache
  def get_thresh(self, n_times: int = None):
      if n_times is None:
          n_times = self.filter_length
      window_fun, _, _ = multitaper.params(n_times, self.sfreq, self.bandwidth,
                                           self.low_bias, self.adaptive, verbose=0)
      threshold = scipy.stats.f.ppf(1 - self.p_value / n_times, 2, 2 * len(window_fun) - 2)
      return window_fun, threshold
  \<close>
  \<open>None / n_times\<close> raises TypeError.
\<close>

definition get_thresh :: "deps \<Rightarrow> WindowingRemover \<Rightarrow> nat option \<Rightarrow> error + (window \<times> real)" where
  "get_thresh d self n_times_arg =
     (let n_times = (case n_times_arg of None \<Rightarrow> self_filter_length self | Some n \<Rightarrow> n) in
      case mt_params d n_times (self_sfreq self) (self_bandwidth self) (self_low_bias self)
             (self_adaptive self) of
        Inl e \<Rightarrow> Inl e
      | Inr window_fun \<Rightarrow>
          (case self_p_value self of
             None \<Rightarrow> Inl TypeError
           | Some p \<Rightarrow>
               if n_times = 0 then Inl ZeroDivisionError
               else Inr (window_fun,
                         f_ppf d (1 - p / real n_times) 2 (2 * int (length window_fun) - 2))))"

text \<open>
  \<open>line_filter\<close> of \<^verbatim>\<open>mt_filter.py\<close> builds the remover with positional arguments:
  \<^verbatim>\<open>
  process = WindowingRemover(fs, freqs, notch_widths, filter_length,
                             adaptive, low_bias, p_value, mt_bandwidth)
  \<close>
\<close>

definition ieeg_line_filter_process ::
  "real \<Rightarrow> ndarray1 option \<Rightarrow> listnum option \<Rightarrow> nat \<Rightarrow> bool \<Rightarrow> bool \<Rightarrow> real
    \<Rightarrow> real option \<Rightarrow> WindowingRemover" where
  "ieeg_line_filter_process fs freqs notch_widths filter_length adaptive low_bias p_value
       mt_bandwidth =
     WindowingRemover_init fs freqs notch_widths filter_length adaptive low_bias
       (Some p_value) mt_bandwidth"

subsection \<open>\<open>_mt_remove\<close>: detection and subtraction in one chunk\<close>

text \<open>\<open>np.angle(c)\<close> is \<open>arctan2(c.imag, c.real)\<close>.\<close>

definition arctan2 :: "real \<Rightarrow> real \<Rightarrow> real" where
  "arctan2 y x =
     (if 0 < x then arctan (y / x)
      else if x < 0 then (if 0 \<le> y then arctan (y / x) + pi else arctan (y / x) - pi)
      else if 0 < y then pi / 2
      else if y < 0 then - (pi / 2)
      else 0)"

definition np_angle :: "complex \<Rightarrow> real" where
  "np_angle c = arctan2 (Im c) (Re c)"

text \<open>
  \<^verbatim>\<open>
  if not isinstance(notch_widths, (list, tuple)) and is_number(notch_widths):
      notch_widths = [notch_widths] * len(line_freqs)
  \<close>
  \<open>is_number\<close> (\<^verbatim>\<open>utils.py\<close>) holds of a Python or numpy number and of nothing else that
  \<open>ListNum\<close> admits. \<open>width_items n\<close> is the sequence that \<open>zip\<close> then iterates.
\<close>

fun is_number :: "listnum \<Rightarrow> bool" where
  "is_number (Scalar s) = True"
| "is_number (PyList xs) = False"
| "is_number (NdArray a) = False"

fun isinstance_list_tuple :: "listnum \<Rightarrow> bool" where
  "isinstance_list_tuple (PyList xs) = True"
| "isinstance_list_tuple (Scalar s) = False"
| "isinstance_list_tuple (NdArray a) = False"

fun listnum_reals :: "listnum \<Rightarrow> real list" where
  "listnum_reals (Scalar s) = [to_real s]"
| "listnum_reals (PyList xs) = map to_real xs"
| "listnum_reals (NdArray a) = arr_reals a"

definition width_items :: "nat \<Rightarrow> listnum \<Rightarrow> real list" where
  "width_items n notch_widths =
     (if \<not> isinstance_list_tuple notch_widths \<and> is_number notch_widths
      then concat (replicate n (listnum_reals notch_widths))
      else listnum_reals notch_widths)"

text \<open>
  \<^verbatim>\<open>
  ranges = [(freq - notch_width / 2, freq + notch_width / 2)
            for freq, notch_width in zip(line_freqs, notch_widths)]
  \<close>
\<close>

definition notch_ranges :: "ndarray1 \<Rightarrow> listnum \<Rightarrow> (real \<times> real) list" where
  "notch_ranges line_freqs notch_widths =
     map (\<lambda>(freq, notch_width). (freq - notch_width / 2, freq + notch_width / 2))
       (zip (arr_reals line_freqs) (width_items (arr_len line_freqs) notch_widths))"

text \<open>
  \<^verbatim>\<open>
  indices = np.where(f_stat > threshold)[1]
  if line_freqs is not None and notch_widths is not None:
      ...
      indices = [ind for ind in indices if any(
          lower <= freqs[ind] <= upper for (lower, upper) in ranges)]
  \<close>
\<close>

definition find_indices :: "bin list \<Rightarrow> real \<Rightarrow> ndarray1 option \<Rightarrow> listnum option \<Rightarrow> nat list" where
  "find_indices bins threshold line_freqs notch_widths =
     (let indices = filter (\<lambda>i. threshold < bin_f_stat (bins ! i)) [0..<length bins] in
      case line_freqs of
        None \<Rightarrow> indices
      | Some lf \<Rightarrow>
          (case notch_widths of
             None \<Rightarrow> indices
           | Some nw \<Rightarrow>
               filter (\<lambda>ind. list_ex (\<lambda>(lower, upper).
                                 lower \<le> bin_freq (bins ! ind) \<and> bin_freq (bins ! ind) \<le> upper)
                               (notch_ranges lf nw))
                 indices))"

text \<open>\<open>np.sum(fits, axis=0)\<close> for a non-empty list of rows of \<open>n\<close> entries each.\<close>

definition np_sum_axis0 :: "nat \<Rightarrow> real list list \<Rightarrow> real list" where
  "np_sum_axis0 n fits = map (\<lambda>j. sum_list (map (\<lambda>fit. fit ! j) fits)) [0..<n]"

text \<open>
  The body of \<open>_mt_remove\<close> after the taper set is settled (the same text in both files):
  \<^verbatim>\<open>
  x_p, freqs = mt_spectra(x[np.newaxis, :], window_fun, sfreq)
  f_stat, A = sine_f_test(window_fun, x_p)
  indices = ...
  fits = list()
  rads = 2 * np.pi * (np.arange(x.size) / float(sfreq))
  for ind in indices:
      c = 2 * A[0, ind]
      fit = np.abs(c) * np.cos(freqs[ind] * rads + np.angle(c))
      fits.append(fit)
  if len(fits) == 0:
      datafit = 0.0
  else:
      datafit = np.sum(fits, axis=0)
  return x - datafit, freqs[indices]
  \<close>
\<close>

definition mt_remove_fit ::
  "deps \<Rightarrow> real list \<Rightarrow> real \<Rightarrow> ndarray1 option \<Rightarrow> listnum option \<Rightarrow> window \<Rightarrow> real
    \<Rightarrow> real list \<times> real list" where
  "mt_remove_fit d x sfreq line_freqs notch_widths window_fun threshold =
     (let bins = spectrum d x window_fun sfreq;
          indices = find_indices bins threshold line_freqs notch_widths;
          rads = map (\<lambda>n. 2 * pi * (real n / sfreq)) [0..<length x];
          fits = map (\<lambda>ind. let c = 2 * bin_A (bins ! ind)
                              in map (\<lambda>r. cmod c * cos (bin_freq (bins ! ind) * r + np_angle c)) rads)
                   indices
      in (if length fits = 0 then map (\<lambda>v. v - 0) x
          else map2 (\<lambda>v f. v - f) x (np_sum_axis0 (length x) fits),
          map (\<lambda>ind. bin_freq (bins ! ind)) indices))"

text \<open>
  \<^verbatim>\<open>filter.py\<close>, the head of \<open>_mt_remove\<close>, which settles the taper set and threshold
  of the chunk:
  \<^verbatim>\<open>
  if x.shape[-1] != window_fun.shape[-1]:
      window_fun, threshold = get_thresh(x.shape[-1])
  \<close>
\<close>

definition chunk_tapers ::
  "real list \<Rightarrow> window \<Rightarrow> real \<Rightarrow> (nat option \<Rightarrow> error + (window \<times> real))
    \<Rightarrow> error + (window \<times> real)" where
  "chunk_tapers x window_fun threshold get_thresh_fn =
     (if length x \<noteq> n_cols window_fun then get_thresh_fn (Some (length x))
      else Inr (window_fun, threshold))"

definition mt_remove ::
  "deps \<Rightarrow> real list \<Rightarrow> real \<Rightarrow> ndarray1 option \<Rightarrow> listnum option \<Rightarrow> window \<Rightarrow> real
    \<Rightarrow> (nat option \<Rightarrow> error + (window \<times> real)) \<Rightarrow> error + (real list \<times> real list)" where
  "mt_remove d x sfreq line_freqs notch_widths window_fun threshold get_thresh_fn =
     (case chunk_tapers x window_fun threshold get_thresh_fn of
        Inl e \<Rightarrow> Inl e
      | Inr (window_fun1, threshold1) \<Rightarrow>
          Inr (mt_remove_fit d x sfreq line_freqs notch_widths window_fun1 threshold1))"

text \<open>
  \<^verbatim>\<open>mt_filter.py\<close>:
  \<^verbatim>\<open>
  if x.shape[-1] != window_fun.shape[-1]:
      window_fun, threshold = get_thresh.func(x.shape[-1], *get_thresh.args[1:])
  \<close>
  The caller passes \<open>self.get_thresh\<close>, a bound method of the \<open>functools.cache\<close> wrapper.
  It has no attribute \<open>func\<close> (nor \<open>args\<close>; those belong to \<open>functools.partial\<close>), so
  evaluating \<open>get_thresh.func\<close> raises AttributeError before anything is called.
\<close>

definition ieeg_chunk_tapers ::
  "real list \<Rightarrow> window \<Rightarrow> real \<Rightarrow> (nat option \<Rightarrow> error + (window \<times> real))
    \<Rightarrow> error + (window \<times> real)" where
  "ieeg_chunk_tapers x window_fun threshold get_thresh_fn =
     (if length x \<noteq> n_cols window_fun then Inl AttributeError
      else Inr (window_fun, threshold))"

definition ieeg_mt_remove ::
  "deps \<Rightarrow> real list \<Rightarrow> real \<Rightarrow> ndarray1 option \<Rightarrow> listnum option \<Rightarrow> window \<Rightarrow> real
    \<Rightarrow> (nat option \<Rightarrow> error + (window \<times> real)) \<Rightarrow> error + (real list \<times> real list)" where
  "ieeg_mt_remove d x sfreq line_freqs notch_widths window_fun threshold get_thresh_fn =
     (case ieeg_chunk_tapers x window_fun threshold get_thresh_fn of
        Inl e \<Rightarrow> Inl e
      | Inr (window_fun1, threshold1) \<Rightarrow>
          Inr (mt_remove_fit d x sfreq line_freqs notch_widths window_fun1 threshold1))"

subsection \<open>The overlap-add engine\<close>

text \<open>
  Modelled from the spec: the overlap-add engine, class \<open>_COLA\<close> of
  \<open>PreProcess.utils.utils\<close> (\<open>COLA\<close> of \<open>ieeg.process\<close>), which is not among the source
  files. The callers construct it as
  \<open>COLA(process, store, n_total, n_samples, n_overlap, sfreq)\<close> and call \<open>feed(x)\<close>.
  By the spec it splits the samples into windows of \<open>n_samples\<close> samples whose starts are
  \<open>hop = n_samples - n_overlap\<close> apart; the last window is clipped to the samples that
  remain. For each window from left to right it calls \<open>process\<close> and adds the cleaned
  samples into its output at the window's start offset, where the overlap with the
  earlier windows is a linear crossfade whose two ramps sum to one, so that the identity
  transform is reconstructed exactly; what no later window reaches is handed to \<open>store\<close>,
  and the last window hands over all that is left. The spec gives no behaviour for a hop
  of zero that cannot cover the input; the model raises ValueError.
\<close>

text \<open>
  Modelled from the spec: the start offsets of the windows of the absent \<open>_COLA\<close> class,
  from \<open>start\<close> on: one hop apart, up to the first window that reaches the end.
\<close>

function cola_starts :: "nat \<Rightarrow> nat \<Rightarrow> nat \<Rightarrow> nat \<Rightarrow> nat list" where
  "cola_starts n_total n_samples hop start =
     (if hop = 0 \<or> n_total \<le> start + n_samples then [start]
      else start # cola_starts n_total n_samples hop (start + hop))"
  by pat_completeness auto
termination
  by (relation "measure (\<lambda>(n_total, n_samples, hop, start). n_total - start)") auto

declare cola_starts.simps [simp del]

text \<open>
  Modelled from the spec: the linear crossfade of the absent \<open>_COLA\<close> class, from the
  \<open>j\<close>-th of \<open>L\<close> pending samples on. At that sample the pending output, which the earlier
  windows left, has the weight \<open>1 - (j + 1) / (L + 1)\<close> and the new chunk the weight
  \<open>(j + 1) / (L + 1)\<close>: the two ramps are linear and sum to one. Where only one of the two
  has samples, they are taken as they are.
\<close>

fun crossfade_from :: "nat \<Rightarrow> nat \<Rightarrow> real list \<Rightarrow> real list \<Rightarrow> real list" where
  "crossfade_from L j [] ys = ys"
| "crossfade_from L j xs [] = xs"
| "crossfade_from L j (x # xs) (y # ys) =
     ((1 - real (Suc j) / real (Suc L)) * x + real (Suc j) / real (Suc L) * y)
       # crossfade_from L (Suc j) xs ys"

text \<open>
  Modelled from the spec: the absent \<open>_COLA\<close> class adding a cleaned chunk into its pending
  output, by a crossfade over all the pending samples.
\<close>

definition crossfade :: "real list \<Rightarrow> real list \<Rightarrow> real list" where
  "crossfade buf out = crossfade_from (length buf) 0 buf out"

text \<open>
  Modelled from the spec: the loop of \<open>feed\<close> of the absent \<open>_COLA\<close> class over the window
  starts; \<open>buf\<close> is the pending output from the write position on, and \<open>st\<close> the state
  that the two callbacks share.
\<close>

fun cola_loop ::
  "(real list \<Rightarrow> 's \<Rightarrow> error + (real list \<times> 's)) \<Rightarrow> (real list \<Rightarrow> 's \<Rightarrow> error + 's)
    \<Rightarrow> nat \<Rightarrow> nat \<Rightarrow> real list \<Rightarrow> nat list \<Rightarrow> real list \<Rightarrow> 's \<Rightarrow> error + 's" where
  "cola_loop process_fn store_fn n_samples hop x [] buf st = Inr st"
| "cola_loop process_fn store_fn n_samples hop x (start # rest) buf st =
     (case process_fn (take n_samples (drop start x)) st of
        Inl e \<Rightarrow> Inl e
      | Inr (out, st1) \<Rightarrow>
          (let buf1 = crossfade buf out;
               delta = (if rest = [] then length buf1 else hop)
           in case store_fn (take delta buf1) st1 of
                Inl e \<Rightarrow> Inl e
              | Inr st2 \<Rightarrow> cola_loop process_fn store_fn n_samples hop x rest (drop delta buf1) st2))"

text \<open>
  Modelled from the spec: \<open>COLA(process, store, n_total, n_samples, n_overlap, sfreq).feed(x)\<close>
  of the absent \<open>_COLA\<close> class.
\<close>

definition cola_feed ::
  "(real list \<Rightarrow> 's \<Rightarrow> error + (real list \<times> 's)) \<Rightarrow> (real list \<Rightarrow> 's \<Rightarrow> error + 's)
    \<Rightarrow> nat \<Rightarrow> nat \<Rightarrow> nat \<Rightarrow> real list \<Rightarrow> 's \<Rightarrow> error + 's" where
  "cola_feed process_fn store_fn n_total n_samples n_overlap_arg x st =
     (let hop = n_samples - n_overlap_arg in
      if hop = 0 \<and> n_samples < n_total then Inl ValueError
      else cola_loop process_fn store_fn n_samples hop x
             (cola_starts n_total n_samples hop 0) [] st)"

subsection \<open>One channel: \<open>_mt_remove_win\<close> and \<open>WindowingRemover.__call__\<close>\<close>

text \<open>
  The closures \<open>process\<close> and \<open>store\<close> share \<open>x_out\<close>, \<open>rm_freqs\<close> and the write
  cursor \<open>idx[0]\<close>:
  \<^verbatim>\<open>
  x_out = np.zeros_like(x)
  rm_freqs = list()
  idx = [0]
  def process(x_):
      out = _mt_remove(x_, sfreq, line_freqs, notch_width, window_fun, thresh, get_thresh)
      rm_freqs.append(out[1])
      return (out[0],)
  def store(x_):
      stop = idx[0] + x_.shape[-1]
      x_out[..., idx[0]:stop] += x_
      idx[0] = stop
  \<close>
  The argument \<open>x_\<close> of either closure is written \<open>chunk\<close>. In \<open>store\<close>, numpy clips the
  slice to the array; the in-place sum then needs \<open>chunk\<close> to
  have the length of the slice, or length one (broadcast), and raises ValueError otherwise.
\<close>

record win_state =
  x_out :: "real list"
  rm_freqs :: "real list list"
  idx :: nat

definition process ::
  "(real list \<Rightarrow> error + (real list \<times> real list)) \<Rightarrow> real list \<Rightarrow> win_state
    \<Rightarrow> error + (real list \<times> win_state)" where
  "process remove chunk st =
     (case remove chunk of
        Inl e \<Rightarrow> Inl e
      | Inr out \<Rightarrow> Inr (fst out, st\<lparr>rm_freqs := rm_freqs st @ [snd out]\<rparr>))"

definition store :: "real list \<Rightarrow> win_state \<Rightarrow> error + win_state" where
  "store chunk st =
     (let stop = idx st + length chunk;
          target = take (length chunk) (drop (idx st) (x_out st))
      in if length target = length chunk
         then Inr (st\<lparr>x_out := take (idx st) (x_out st) @ map2 (\<lambda>a b. a + b) target chunk
                                  @ drop stop (x_out st),
                      idx := stop\<rparr>)
         else if length chunk = 1
         then Inr (st\<lparr>x_out := take (idx st) (x_out st) @ map (\<lambda>a. a + hd chunk) target,
                      idx := stop\<rparr>)
         else Inl ValueError)"

text \<open>
  \<^verbatim>\<open>filter.py\<close>, \<open>_mt_remove_win\<close>, up to the end of \<open>feed\<close>:
  \<^verbatim>\<open>
  window_fun, thresh = get_thresh()
  n_times = x.shape[-1]
  n_samples = window_fun.shape[1]
  n_overlap = (n_samples + 1) // 2
  ...
  _COLA(process, store, n_times, n_samples, n_overlap, sfreq, ...).feed(x)
  \<close>
\<close>

definition mt_remove_win_feed ::
  "deps \<Rightarrow> real list \<Rightarrow> real \<Rightarrow> ndarray1 option \<Rightarrow> listnum option
    \<Rightarrow> (nat option \<Rightarrow> error + (window \<times> real)) \<Rightarrow> error + win_state" where
  "mt_remove_win_feed d x sfreq line_freqs notch_width get_thresh_fn =
     (case get_thresh_fn None of
        Inl e \<Rightarrow> Inl e
      | Inr (window_fun, thresh) \<Rightarrow>
          (let n_times = length x;
               n_samples = n_cols window_fun
           in cola_feed
                (process (\<lambda>chunk. mt_remove d chunk sfreq line_freqs notch_width window_fun thresh
                                get_thresh_fn))
                store n_times n_samples (n_overlap n_samples) x
                \<lparr>x_out = map (\<lambda>_. 0) x, rm_freqs = [], idx = 0\<rparr>))"

text \<open>
  \<^verbatim>\<open>
  assert idx[0] == n_times
  return x_out, rm_freqs
  \<close>
\<close>

definition mt_remove_win ::
  "deps \<Rightarrow> real list \<Rightarrow> real \<Rightarrow> ndarray1 option \<Rightarrow> listnum option
    \<Rightarrow> (nat option \<Rightarrow> error + (window \<times> real)) \<Rightarrow> error + (real list \<times> real list list)" where
  "mt_remove_win d x sfreq line_freqs notch_width get_thresh_fn =
     (case mt_remove_win_feed d x sfreq line_freqs notch_width get_thresh_fn of
        Inl e \<Rightarrow> Inl e
      | Inr st \<Rightarrow> if idx st = length x then Inr (x_out st, rm_freqs st) else Inl AssertionError)"

subsection \<open>The report of removed frequencies\<close>

text \<open>\<open>np.round\<close> rounds half to even; \<open>np.unique\<close> returns the sorted distinct values.\<close>

definition np_round :: "real \<Rightarrow> int" where
  "np_round v =
     (let f = \<lfloor>v\<rfloor>; r = v - of_int f
      in if r < 1 / 2 then f else if 1 / 2 < r then f + 1 else if even f then f else f + 1)"

definition np_unique :: "int list \<Rightarrow> int list" where
  "np_unique xs = sort (remdups xs)"

text \<open>
  \<open>Counter(items)\<close>: each distinct item with the number of its occurrences (a dictionary;
  the order of its keys plays no part, as the report sorts them). \<open>counts[freq]\<close> of a
  missing key is 0.
\<close>

definition Counter :: "int list \<Rightarrow> (int \<times> nat) list" where
  "Counter items = map (\<lambda>k. (k, count_list items k)) (remdups items)"

definition counts_get :: "(int \<times> nat) list \<Rightarrow> int \<Rightarrow> nat" where
  "counts_get counts k = (case map_of counts k of None \<Rightarrow> 0 | Some c \<Rightarrow> c)"

text \<open>
  The logged message, as data: the word before \<open>notch frequencies (Hz)\<close>, and one row
  \<open>(freq, counts[freq])\<close> for each \<open>freq in sorted(counts)\<close> (no row prints as \<open>None\<close>).
\<close>

record report =
  kind :: string
  found_freqs :: "(int \<times> nat) list"

definition make_report :: "ndarray1 option \<Rightarrow> (int \<times> nat) list \<Rightarrow> report" where
  "make_report line_freqs counts =
     \<lparr>kind = (if line_freqs = None then ''Detected'' else ''Removed''),
      found_freqs = map (\<lambda>freq. (freq, counts_get counts freq)) (sort (map fst counts))\<rparr>"

text \<open>
  \<^verbatim>\<open>filter.py\<close>, \<open>mt_spectrum_proc\<close>; \<open>freq_list\<close> holds, per filtered channel, the list
  \<open>rm_freqs\<close> of its chunks' removed frequencies:
  \<^verbatim>\<open>
  counts = Counter(sum((np.unique(np.round(ff)).tolist()
                        for f in freq_list for ff in f), list()))
  \<close>
\<close>

definition count_freqs :: "real list list list \<Rightarrow> (int \<times> nat) list" where
  "count_freqs freq_list =
     Counter (concat (map (\<lambda>ff. np_unique (map np_round ff)) (concat freq_list)))"

text \<open>
  \<^verbatim>\<open>mt_filter.py\<close>, \<open>WindowingRemover.__call__\<close>; the same expression over the chunks of
  one channel, so that \<open>f\<close> is one chunk's array and \<open>ff\<close> one frequency:
  \<^verbatim>\<open>
  counts = Counter(sum((np.unique(np.round(ff)).tolist()
                        for f in rm_freqs for ff in f), list()))
  \<close>
\<close>

definition ieeg_count_freqs :: "real list list \<Rightarrow> (int \<times> nat) list" where
  "ieeg_count_freqs rm_freqs_arg =
     Counter (concat (map (\<lambda>ff. np_unique [np_round ff]) (concat rm_freqs_arg)))"

text \<open>\<open>WindowingRemover.__call__\<close>: as \<open>_mt_remove_win\<close>, then the report.\<close>

definition WindowingRemover_feed :: "deps \<Rightarrow> WindowingRemover \<Rightarrow> real list \<Rightarrow> error + win_state" where
  "WindowingRemover_feed d self x =
     (case get_thresh d self None of
        Inl e \<Rightarrow> Inl e
      | Inr (window_fun, thresh) \<Rightarrow>
          (let n_times = length x;
               n_samples = n_cols window_fun
           in cola_feed
                (process (\<lambda>chunk. ieeg_mt_remove d chunk (self_sfreq self) (self_line_freqs self)
                                (self_notch_width self) window_fun thresh (get_thresh d self)))
                store n_times n_samples (n_overlap n_samples) x
                \<lparr>x_out = map (\<lambda>_. 0) x, rm_freqs = [], idx = 0\<rparr>))"

definition WindowingRemover_call ::
  "deps \<Rightarrow> WindowingRemover \<Rightarrow> real list \<Rightarrow> error + (real list \<times> report)" where
  "WindowingRemover_call d self x =
     (case WindowingRemover_feed d self x of
        Inl e \<Rightarrow> Inl e
      | Inr st \<Rightarrow>
          if idx st = length x
          then Inr (x_out st, make_report (self_line_freqs self) (ieeg_count_freqs (rm_freqs st)))
          else Inl AssertionError)"

subsection \<open>Buffers and \<open>_prep_for_filtering\<close>\<close>

text \<open>
  A float64 \<open>ndarray\<close>: its shape and its elements in row-major order.
  \<open>_check_filterable\<close> accepts exactly such arrays, so it is the identity here.
\<close>

record ndarray =
  shape :: "nat list"
  flat :: "real list"

definition np_atleast_2d_shape :: "nat list \<Rightarrow> nat list" where
  "np_atleast_2d_shape sh =
     (if length sh = 0 then [1, 1] else if length sh = 1 then [1, hd sh] else sh)"

text \<open>The rows of an array of shape \<open>(n_rows, n_cols)\<close>.\<close>

definition array_rows :: "ndarray \<Rightarrow> real list list" where
  "array_rows a =
     map (\<lambda>i. take (last (shape a)) (drop (i * last (shape a)) (flat a))) [0..<hd (shape a)]"

text \<open>\<open>np.arange(0, stop, step)\<close>, \<open>np.repeat(a, k)\<close> and \<open>np.tile(a, k)\<close>.\<close>

definition np_arange :: "nat \<Rightarrow> nat \<Rightarrow> error + int list" where
  "np_arange stop step =
     (if step = 0 then Inl ZeroDivisionError
      else Inr (map (\<lambda>k. int (k * step)) [0..<(stop + step - 1) div step]))"

definition np_repeat :: "int list \<Rightarrow> nat \<Rightarrow> int list" where
  "np_repeat a k = concat (map (replicate k) a)"

definition np_tile :: "int list \<Rightarrow> nat \<Rightarrow> int list" where
  "np_tile a k = concat (replicate k a)"

text \<open>
  \<^verbatim>\<open>
  orig_shape = x.shape
  x = np.atleast_2d(x)
  picks = pick._picks_to_idx(x.shape[-2], picks)
  x.shape = (np.prod(x.shape[:-1]), x.shape[-1])
  if len(orig_shape) == 3:
      n_epochs, n_channels, n_times = orig_shape
      offset = np.repeat(np.arange(0, n_channels * n_epochs, n_channels), len(picks))
      picks = np.tile(picks, n_epochs) + offset
  elif len(orig_shape) > 3:
      raise ValueError(...)
  assert all(0 <= pick < x.shape[0] for pick in picks)
  return x, orig_shape, picks
  \<close>
\<close>

definition prep_for_filtering ::
  "deps \<Rightarrow> ndarray \<Rightarrow> int list option \<Rightarrow> error + (ndarray \<times> nat list \<times> int list)" where
  "prep_for_filtering d x picks =
     (let orig_shape = shape x;
          sh2 = np_atleast_2d_shape orig_shape
      in case picks_to_idx d (sh2 ! (length sh2 - 2)) picks of
           Inl e \<Rightarrow> Inl e
         | Inr picks1 \<Rightarrow>
             (let x2 = x\<lparr>shape := [prod_list (butlast sh2), last sh2]\<rparr> in
              case (if length orig_shape = 3
                    then (let n_epochs = orig_shape ! 0; n_channels = orig_shape ! 1 in
                          case np_arange (n_channels * n_epochs) n_channels of
                            Inl e \<Rightarrow> Inl e
                          | Inr ar \<Rightarrow>
                              Inr (map2 (\<lambda>a b. a + b) (np_tile picks1 n_epochs)
                                     (np_repeat ar (length picks1))))
                    else if 3 < length orig_shape then Inl ValueError
                    else Inr picks1) of
                Inl e \<Rightarrow> Inl e
              | Inr picks2 \<Rightarrow>
                  if list_all (\<lambda>pick. 0 \<le> pick \<and> pick < int (hd (shape x2))) picks2
                  then Inr (x2, orig_shape, picks2)
                  else Inl AssertionError))"

subsection \<open>\<open>mt_spectrum_proc\<close>\<close>

text \<open>
  \<^verbatim>\<open>filter.py\<close>:
  \<^verbatim>\<open>
  x, orig_shape, picks = _prep_for_filtering(x, picks)
  freq_list = list()
  for ii, x_ in enumerate(x):
      if ii in picks:
          x[ii], f = _mt_remove_win(x_, sfreq, line_freqs, notch_widths, get_wt, n_jobs)
          freq_list.append(f)
  counts = ...
  kind = 'Detected' if line_freqs is None else 'Removed'
  logger.info(...)
  x.shape = orig_shape
  return x
  \<close>
  \<open>channel_loop\<close> is the \<open>for\<close> loop over the row numbers still to visit; the function
  returns the array together with the logged report.
\<close>

fun channel_loop ::
  "(real list \<Rightarrow> error + (real list \<times> real list list)) \<Rightarrow> int list \<Rightarrow> nat list
    \<Rightarrow> real list list \<Rightarrow> real list list list
    \<Rightarrow> error + (real list list \<times> real list list list)" where
  "channel_loop win picks [] rows freq_list = Inr (rows, freq_list)"
| "channel_loop win picks (ii # rest) rows freq_list =
     (if int ii \<in> set picks
      then (case win (rows ! ii) of
              Inl e \<Rightarrow> Inl e
            | Inr (row, f) \<Rightarrow> channel_loop win picks rest (rows[ii := row]) (freq_list @ [f]))
      else channel_loop win picks rest rows freq_list)"

definition mt_spectrum_proc ::
  "deps \<Rightarrow> ndarray \<Rightarrow> real \<Rightarrow> ndarray1 option \<Rightarrow> listnum option \<Rightarrow> int list option
    \<Rightarrow> (nat option \<Rightarrow> error + (window \<times> real)) \<Rightarrow> error + (ndarray \<times> report)" where
  "mt_spectrum_proc d x sfreq line_freqs notch_widths picks get_wt =
     (case prep_for_filtering d x picks of
        Inl e \<Rightarrow> Inl e
      | Inr (x2, orig_shape, picks2) \<Rightarrow>
          (case channel_loop (\<lambda>row. mt_remove_win d row sfreq line_freqs notch_widths get_wt)
                  picks2 [0..<hd (shape x2)] (array_rows x2) [] of
             Inl e \<Rightarrow> Inl e
           | Inr (rows, freq_list) \<Rightarrow>
               Inr (\<lparr>shape = orig_shape, flat = concat rows\<rparr>,
                    make_report line_freqs (count_freqs freq_list))))"

text \<open>
  Modelled from the spec: \<open>proc_array\<close> of \<open>ieeg.process\<close>, which is not among the source
  files. The caller's only arguments are the callable and the 2-D array (and the number of
  jobs and a label), and the caller returns that same array afterwards: \<open>proc_array\<close> runs
  the callable on each slice along the first axis and writes the results back in place.
  The reports that the calls log are collected in order.
\<close>

fun proc_array ::
  "(real list \<Rightarrow> error + (real list \<times> 'l)) \<Rightarrow> real list list \<Rightarrow> error + (real list list \<times> 'l list)" where
  "proc_array func [] = Inr ([], [])"
| "proc_array func (row # rows) =
     (case func row of
        Inl e \<Rightarrow> Inl e
      | Inr (out, l) \<Rightarrow>
          (case proc_array func rows of
             Inl e \<Rightarrow> Inl e
           | Inr (outs, ls) \<Rightarrow> Inr (out # outs, l # ls)))"

text \<open>
  \<^verbatim>\<open>mt_filter.py\<close>:
  \<^verbatim>\<open>
  def mt_spectrum_proc(x, process, picks, n_jobs):
      x, orig_shape, picks = _prep_for_filtering(x, picks)
      proc_array(process, x, n_jobs=n_jobs, desc="Channels")
      x.shape = orig_shape
      return x
  \<close>
\<close>

definition ieeg_mt_spectrum_proc ::
  "deps \<Rightarrow> ndarray \<Rightarrow> (real list \<Rightarrow> error + (real list \<times> 'l)) \<Rightarrow> int list option
    \<Rightarrow> error + (ndarray \<times> 'l list)" where
  "ieeg_mt_spectrum_proc d x process_fn picks =
     (case prep_for_filtering d x picks of
        Inl e \<Rightarrow> Inl e
      | Inr (x2, orig_shape, picks2) \<Rightarrow>
          (case proc_array process_fn (array_rows x2) of
             Inl e \<Rightarrow> Inl e
           | Inr (rows, logs) \<Rightarrow> Inr (\<lparr>shape = orig_shape, flat = concat rows\<rparr>, logs)))"

subsection \<open>\<open>line_filter\<close>\<close>

text \<open>
  The recording (an MNE \<open>Raw\<close>): its sampling rate \<open>info["sfreq"]\<close>, for each channel
  whether its type is a data type, and \<open>_data\<close>, one row per channel.
  \<open>get_data("data")\<close> is the array of the data channels' rows, and
  \<open>filt._data[data_idx] = ...\<close> writes rows back at those channels. The function returns the
  filtered recording (a copy or the same object, by \<open>copy\<close>) and what was logged.
\<close>

record signal =
  info_sfreq :: real
  ch_is_data :: "bool list"
  sig_data :: "real list list"

definition get_data :: "signal \<Rightarrow> ndarray" where
  "get_data raw =
     (let rows = map snd (filter fst (zip (ch_is_data raw) (sig_data raw)))
      in \<lparr>shape = [length rows, (case sig_data raw of [] \<Rightarrow> 0 | r # rs \<Rightarrow> length r)],
          flat = concat rows\<rparr>)"

fun set_data_rows :: "bool list \<Rightarrow> real list list \<Rightarrow> real list list \<Rightarrow> real list list" where
  "set_data_rows (True # ms) (r # rs) (n # ns) = n # set_data_rows ms rs ns"
| "set_data_rows (False # ms) (r # rs) ns = r # set_data_rows ms rs ns"
| "set_data_rows ms rs ns = rs"

text \<open>
  \<^verbatim>\<open>filter.py\<close>:
  \<^verbatim>\<open>
  if isinstance(filter_length, str) and filter_length == 'auto':
      filter_length = '10s'
  if filter_length is None:
      filter_length = x.shape[-1]
  filter_length: int = min(to_samples(filter_length, fs), x.shape[-1])
  \<close>
\<close>

definition resolve_filter_length :: "deps \<Rightarrow> duration option \<Rightarrow> real \<Rightarrow> ndarray \<Rightarrow> error + nat" where
  "resolve_filter_length d filter_length fs x =
     (let fl1 = (if filter_length = Some (Seconds_str ''auto'') then Some (Seconds_str ''10s'')
                 else filter_length);
          fl2 = (case fl1 of None \<Rightarrow> Samples (last (shape x)) | Some f \<Rightarrow> f)
      in case to_samples d fl2 fs of
           Inl e \<Rightarrow> Inl e
         | Inr n \<Rightarrow> Inr (min n (last (shape x))))"

definition line_filter ::
  "deps \<Rightarrow> signal \<Rightarrow> real option \<Rightarrow> listnum option \<Rightarrow> duration option \<Rightarrow> listnum option
    \<Rightarrow> real option \<Rightarrow> real \<Rightarrow> int list option \<Rightarrow> bool \<Rightarrow> bool \<Rightarrow> error + (signal \<times> report)" where
  "line_filter d raw fs freqs filter_length notch_widths mt_bandwidth p_value picks
       adaptive low_bias =
     (let fs1 = (case fs of None \<Rightarrow> info_sfreq raw | Some f \<Rightarrow> f);
          x = get_data raw
      in case check_notch_widths freqs notch_widths of
           Inl e \<Rightarrow> Inl e
         | Inr (freqs1, notch_widths1) \<Rightarrow>
             (case resolve_filter_length d filter_length fs1 x of
                Inl e \<Rightarrow> Inl e
              | Inr filter_length1 \<Rightarrow>
                  (case mt_spectrum_proc d x fs1 freqs1 notch_widths1 picks
                          (get_window_thresh d fs1 mt_bandwidth low_bias adaptive p_value
                             filter_length1) of
                     Inl e \<Rightarrow> Inl e
                   | Inr (y, rep) \<Rightarrow>
                       Inr (raw\<lparr>sig_data := set_data_rows (ch_is_data raw) (sig_data raw)
                                                 (array_rows y)\<rparr>, rep))))"

text \<open>
  \<^verbatim>\<open>mt_filter.py\<close>: the same steps (without the \<open>'auto'\<close> length), with
  \<open>process = WindowingRemover(...)\<close> and
  \<open>filt._data[data_idx] = mt_spectrum_proc(x, process, picks, n_jobs)\<close>.
\<close>

definition ieeg_resolve_filter_length ::
  "deps \<Rightarrow> duration option \<Rightarrow> real \<Rightarrow> ndarray \<Rightarrow> error + nat" where
  "ieeg_resolve_filter_length d filter_length fs x =
     (let fl2 = (case filter_length of None \<Rightarrow> Samples (last (shape x)) | Some f \<Rightarrow> f)
      in case to_samples d fl2 fs of
           Inl e \<Rightarrow> Inl e
         | Inr n \<Rightarrow> Inr (min n (last (shape x))))"

definition ieeg_line_filter ::
  "deps \<Rightarrow> signal \<Rightarrow> real option \<Rightarrow> listnum option \<Rightarrow> duration option \<Rightarrow> listnum option
    \<Rightarrow> real option \<Rightarrow> real \<Rightarrow> int list option \<Rightarrow> bool \<Rightarrow> bool
    \<Rightarrow> error + (signal \<times> report list)" where
  "ieeg_line_filter d raw fs freqs filter_length notch_widths mt_bandwidth p_value picks
       adaptive low_bias =
     (let fs1 = (case fs of None \<Rightarrow> info_sfreq raw | Some f \<Rightarrow> f);
          x = get_data raw
      in case check_notch_widths freqs notch_widths of
           Inl e \<Rightarrow> Inl e
         | Inr (freqs1, notch_widths1) \<Rightarrow>
             (case ieeg_resolve_filter_length d filter_length fs1 x of
                Inl e \<Rightarrow> Inl e
              | Inr filter_length1 \<Rightarrow>
                  (case ieeg_mt_spectrum_proc d x
                          (WindowingRemover_call d
                             (ieeg_line_filter_process fs1 freqs1 notch_widths1 filter_length1
                                adaptive low_bias p_value mt_bandwidth))
                          picks of
                     Inl e \<Rightarrow> Inl e
                   | Inr (y, reps) \<Rightarrow>
                       Inr (raw\<lparr>sig_data := set_data_rows (ch_is_data raw) (sig_data raw)
                                                 (array_rows y)\<rparr>, reps))))"

subsection \<open>A small environment for running the model\<close>

text \<open>
  Concrete stand-ins for the parameters, used to run the definitions on examples: a taper
  bank with a single flat taper, a threshold of 3 whatever the quantile, and a spectrum of
  two bins: a constant component of amplitude 1 at 0 Hz with F statistic 5, and an empty
  bin at half the sampling rate with F statistic 1.
\<close>

definition example_deps :: deps where
  "example_deps =
     \<lparr>mt_params = (\<lambda>n_times sfreq bandwidth low_bias adaptive. Inr [replicate n_times 1]),
      f_ppf = (\<lambda>q dfn dfd. 3),
      spectrum = (\<lambda>x window_fun sfreq.
         [\<lparr>bin_freq = 0, bin_f_stat = 5, bin_A = 1 / 2\<rparr>,
          \<lparr>bin_freq = sfreq / 2, bin_f_stat = 1, bin_A = 0\<rparr>]),
      to_samples = (\<lambda>dur fs. case dur of Samples n \<Rightarrow> Inr n | Seconds_str s \<Rightarrow> Inr (nat \<lfloor>10 * fs\<rfloor>)),
      picks_to_idx = (\<lambda>n_chan picks. case picks of None \<Rightarrow> Inr (map int [0..<n_chan])
                                        | Some ps \<Rightarrow> Inr ps)\<rparr>"

definition example_raw :: signal where
  "example_raw =
     \<lparr>info_sfreq = 4, ch_is_data = [True, True], sig_data = [[1, 2, 3], [4, 5, 6]]\<rparr>"


section \<open>Properties\<close>

lemma n_overlap_ceiling_half: "int (n_overlap n) = \<lceil>real n / 2\<rceil>"
  unfolding n_overlap_def by (simp add: ceiling_divide_eq_div) linarith

subsection \<open>C3: the overlap between adjacent windows\<close>

text \<open>
  C3, the claim as stated fails: for a window of 4 samples the code's overlap is
  \<open>(4 + 1) // 2 = 2\<close>, while \<open>ceil((4 + 1) / 2) = 3\<close>.
\<close>

theorem overlap_is_not_ceiling_of_succ_half:
  "n_overlap 4 = 2 \<and> \<lceil>(real 4 + 1) / 2\<rceil> = (3::int)"
  by (simp add: n_overlap_def ceiling_divide_eq_div)

text \<open>
  C3, amended: for every window length \<open>n\<close> the overlap handed to the overlap-add engine
  is \<open>(n + 1) // 2\<close>, that is \<open>ceil(n / 2)\<close>; it equals \<open>ceil((n + 1) / 2)\<close> exactly when
  \<open>n\<close> is odd and is one less when \<open>n\<close> is even. The hop \<open>n - overlap\<close> is
  \<open>floor(n / 2)\<close>; overlap and hop add up to the window, and the hop never exceeds the
  overlap, so windows one hop apart leave no gap.
\<close>

theorem overlap_and_hop:
  "n_overlap n = (n + 1) div 2
   \<and> int (n_overlap n) = \<lceil>real n / 2\<rceil>
   \<and> \<lceil>(real n + 1) / 2\<rceil> = int (n_overlap n) + (if even n then 1 else 0)
   \<and> n - n_overlap n = n div 2
   \<and> n_overlap n + (n - n_overlap n) = n
   \<and> n - n_overlap n \<le> n_overlap n"
proof -
  have a: "int (n_overlap n) = \<lceil>real n / 2\<rceil>"
    by (rule n_overlap_ceiling_half)
  have "\<lceil>(real n + 1) / 2\<rceil> = \<lceil>real (Suc n) / 2\<rceil>"
    by (simp add: add.commute)
  then have b: "\<lceil>(real n + 1) / 2\<rceil> = int (n_overlap (Suc n))"
    by (simp only: n_overlap_ceiling_half)
  have c: "int (n_overlap (Suc n)) = int (n_overlap n) + (if even n then 1 else 0)"
    unfolding n_overlap_def by (cases "even n") (auto elim!: evenE oddE)
  have d: "n - n_overlap n = n div 2" "n_overlap n + (n - n_overlap n) = n"
    "n - n_overlap n \<le> n_overlap n"
    unfolding n_overlap_def by presburger+
  show ?thesis using a b c d by (simp add: n_overlap_def)
qed

subsection \<open>C10: a scalar width is broadcast without truncation\<close>

lemma np_scalar_mul_ones_reals:
  "arr_reals (np_scalar_mul s (np_ones_like a)) = replicate (arr_len a) (to_real s)"
  by (cases s; cases a) (simp_all add: map_replicate_const comp_def)





subsection \<open>C1: the threshold of a chunk\<close>

text \<open>
  In \<^verbatim>\<open>filter.py\<close> the threshold for a chunk of \<open>n\<close> samples is the
  \<open>1 - p_value / n\<close> quantile of the F distribution with \<open>(2, 2K - 2)\<close> degrees of
  freedom, \<open>K\<close> the number of tapers the bank returns for that length.
\<close>

lemma get_window_thresh_quantile:
  assumes "n = (case n_arg of None \<Rightarrow> fl | Some m \<Rightarrow> m)"
    and "mt_params d n fs bw low_bias adaptive = Inr w" and "0 < n"
  shows "get_window_thresh d fs bw low_bias adaptive p fl n_arg
           = Inr (w, f_ppf d (1 - p / real n) 2 (2 * int (length w) - 2))"
  using assms by (cases n_arg) (simp_all add: get_window_thresh_def)

text \<open>
  C1 in \<^verbatim>\<open>mt_filter.py\<close>: \<open>line_filter\<close> passes \<open>adaptive, low_bias, p_value, mt_bandwidth\<close>
  where the constructor expects \<open>low_bias, adaptive, bandwidth, p_value\<close>. The remover it
  builds therefore computes, for every chunk length, the threshold that \<^verbatim>\<open>filter.py\<close> would
  compute with the bandwidth \<open>bw\<close> in the place of the p-value (and the p-value as the
  bandwidth of the taper bank): the quantile is \<open>1 - mt_bandwidth / n\<close>, not
  \<open>1 - p_value / n\<close>.
\<close>

theorem ieeg_threshold_swaps_p_value_and_bandwidth:
  "get_thresh d (ieeg_line_filter_process fs freqs nw fl adaptive low_bias p_value (Some bw)) n_arg
     = get_window_thresh d fs (Some p_value) adaptive low_bias bw fl n_arg"
  by (cases n_arg)
    (simp_all add: get_thresh_def get_window_thresh_def ieeg_line_filter_process_def
      WindowingRemover_init_def Let_def split: sum.splits)

text \<open>With the default \<open>mt_bandwidth = None\<close> the division raises TypeError.\<close>

lemma ieeg_threshold_without_bandwidth:
  "get_thresh d (ieeg_line_filter_process fs freqs nw fl adaptive low_bias p_value None) n_arg
     = (case mt_params d (case n_arg of None \<Rightarrow> fl | Some n \<Rightarrow> n) fs (Some p_value) adaptive low_bias of
          Inl e \<Rightarrow> Inl e | Inr w \<Rightarrow> Inl TypeError)"
  by (cases n_arg)
    (simp_all add: get_thresh_def ieeg_line_filter_process_def WindowingRemover_init_def Let_def
      split: sum.splits)

subsection \<open>C8: a chunk whose length differs from the window\<close>

text \<open>
  C8 in \<^verbatim>\<open>mt_filter.py\<close>: a chunk of 3 samples met with a taper matrix of 4 columns is
  not given fresh tapers; \<open>_mt_remove\<close> raises AttributeError, whatever \<open>get_thresh\<close> is.
\<close>

theorem ieeg_shorter_chunk_raises:
  "ieeg_mt_remove d [1, 2, 3] sfreq line_freqs notch_widths [[1, 1, 1, 1]] threshold g
     = Inl AttributeError"
  by (simp add: ieeg_mt_remove_def ieeg_chunk_tapers_def)

text \<open>
  \<^verbatim>\<open>filter.py\<close> does what the claim says: the taper set and threshold that \<open>get_thresh\<close>
  returns for the chunk's own length are the ones used.
\<close>

lemma mt_remove_fresh_tapers:
  assumes "length x \<noteq> n_cols window_fun" and "g (Some (length x)) = Inr (w1, t1)"
  shows "mt_remove d x sfreq lf nw window_fun threshold g = Inr (mt_remove_fit d x sfreq lf nw w1 t1)"
  using assms by (simp add: mt_remove_def chunk_tapers_def)

subsection \<open>C4: which bins are removed\<close>

lemma find_indices_auto:
  "find_indices bins thr None nw = filter (\<lambda>i. thr < bin_f_stat (bins ! i)) [0..<length bins]"
  by (simp add: find_indices_def)

lemma in_ranges_iff:
  "list_ex (\<lambda>(lower, upper). lower \<le> v \<and> v \<le> upper) (notch_ranges lf nw)
     = (\<exists>(f, w) \<in> set (zip (arr_reals lf) (width_items (arr_len lf) nw)).
          f - w / 2 \<le> v \<and> v \<le> f + w / 2)"
  by (simp add: notch_ranges_def list_ex_iff split_beta Bex_def)

text \<open>
  The pairs that \<open>zip\<close> yields are the entries of the two sequences at the same position;
  a number is repeated once for every target, a list or an array is taken as it is.
\<close>

lemma bex_zip_nth:
  "(\<exists>(f, w) \<in> set (zip xs ys). P f w)
     = (\<exists>k. k < length xs \<and> k < length ys \<and> P (xs ! k) (ys ! k))"
  by (auto simp: set_zip)

lemma concat_replicate_single: "concat (replicate n [a]) = replicate n a"
  by (induction n) simp_all

lemma width_items_scalar: "width_items n (Scalar s) = replicate n (to_real s)"
  by (simp add: width_items_def concat_replicate_single)

lemma width_items_array: "width_items n (NdArray a) = arr_reals a"
  by (simp add: width_items_def)

lemma width_items_list: "width_items n (PyList ws) = map to_real ws"
  by (simp add: width_items_def)

lemma length_arr_reals: "length (arr_reals a) = arr_len a"
  by (cases a) simp_all

lemma arr_len_scalar_mul: "arr_len (np_scalar_mul s (np_ones_like a)) = arr_len a"
  by (cases s; cases a) simp_all

text \<open>
  C4: with target frequencies \<open>lf\<close> and notch widths, the bins removed are, in ascending
  order, exactly those whose F statistic exceeds the threshold and whose frequency lies in
  \<open>[lf[k] - width[k] / 2, lf[k] + width[k] / 2]\<close> for some position \<open>k\<close>: target \<open>k\<close>
  goes with entry \<open>k\<close> of an array or list of widths, and every target goes with the
  width itself when it is a number. Filtering the result of the unconstrained test
  afterwards, by any predicate on the bins, gives the bins that pass both tests, so the
  range filter is post-hoc. Without target frequencies every bin above the threshold is
  removed. The frequencies that \<open>_mt_remove\<close> reports are those of these bins.
\<close>

theorem targeted_bins_per_target:
  "find_indices bins thr (Some lf) (Some (NdArray a))
     = filter (\<lambda>i. thr < bin_f_stat (bins ! i)
                  \<and> (\<exists>k. k < arr_len lf \<and> k < arr_len a
                        \<and> arr_reals lf ! k - arr_reals a ! k / 2 \<le> bin_freq (bins ! i)
                        \<and> bin_freq (bins ! i) \<le> arr_reals lf ! k + arr_reals a ! k / 2))
         [0..<length bins]
   \<and> find_indices bins thr (Some lf) (Some (Scalar s))
     = filter (\<lambda>i. thr < bin_f_stat (bins ! i)
                  \<and> (\<exists>k. k < arr_len lf
                        \<and> arr_reals lf ! k - to_real s / 2 \<le> bin_freq (bins ! i)
                        \<and> bin_freq (bins ! i) \<le> arr_reals lf ! k + to_real s / 2))
         [0..<length bins]
   \<and> find_indices bins thr (Some lf) (Some (PyList ws))
     = filter (\<lambda>i. thr < bin_f_stat (bins ! i)
                  \<and> (\<exists>k. k < arr_len lf \<and> k < length ws
                        \<and> arr_reals lf ! k - to_real (ws ! k) / 2 \<le> bin_freq (bins ! i)
                        \<and> bin_freq (bins ! i) \<le> arr_reals lf ! k + to_real (ws ! k) / 2))
         [0..<length bins]
   \<and> filter R (find_indices bins thr None None)
     = filter (\<lambda>i. thr < bin_f_stat (bins ! i) \<and> R i) [0..<length bins]
   \<and> find_indices bins thr None nw' = filter (\<lambda>i. thr < bin_f_stat (bins ! i)) [0..<length bins]
   \<and> snd (mt_remove_fit d x sfreq lf' nw' window_fun thr)
     = map (\<lambda>i. bin_freq (spectrum d x window_fun sfreq ! i))
         (find_indices (spectrum d x window_fun sfreq) thr lf' nw')"
proof -
  have gen: "find_indices bins thr (Some lf) (Some nw)
               = filter (\<lambda>i. thr < bin_f_stat (bins ! i)
                    \<and> (\<exists>k. k < arr_len lf \<and> k < length (width_items (arr_len lf) nw)
                          \<and> arr_reals lf ! k - width_items (arr_len lf) nw ! k / 2 \<le> bin_freq (bins ! i)
                          \<and> bin_freq (bins ! i) \<le> arr_reals lf ! k + width_items (arr_len lf) nw ! k / 2))
                   [0..<length bins]" for nw
    by (simp add: find_indices_def in_ranges_iff bex_zip_nth length_arr_reals conj_commute)
  have a: "find_indices bins thr (Some lf) (Some (NdArray a))
     = filter (\<lambda>i. thr < bin_f_stat (bins ! i)
                  \<and> (\<exists>k. k < arr_len lf \<and> k < arr_len a
                        \<and> arr_reals lf ! k - arr_reals a ! k / 2 \<le> bin_freq (bins ! i)
                        \<and> bin_freq (bins ! i) \<le> arr_reals lf ! k + arr_reals a ! k / 2))
         [0..<length bins]"
    unfolding gen width_items_array length_arr_reals ..
  have b: "find_indices bins thr (Some lf) (Some (Scalar s))
     = filter (\<lambda>i. thr < bin_f_stat (bins ! i)
                  \<and> (\<exists>k. k < arr_len lf
                        \<and> arr_reals lf ! k - to_real s / 2 \<le> bin_freq (bins ! i)
                        \<and> bin_freq (bins ! i) \<le> arr_reals lf ! k + to_real s / 2))
         [0..<length bins]"
    unfolding gen width_items_scalar
    by (rule filter_cong[OF refl]) auto
  have c: "find_indices bins thr (Some lf) (Some (PyList ws))
     = filter (\<lambda>i. thr < bin_f_stat (bins ! i)
                  \<and> (\<exists>k. k < arr_len lf \<and> k < length ws
                        \<and> arr_reals lf ! k - to_real (ws ! k) / 2 \<le> bin_freq (bins ! i)
                        \<and> bin_freq (bins ! i) \<le> arr_reals lf ! k + to_real (ws ! k) / 2))
         [0..<length bins]"
    unfolding gen width_items_list
    by (rule filter_cong[OF refl]) auto
  have g: "filter R (find_indices bins thr None None)
     = filter (\<lambda>i. thr < bin_f_stat (bins ! i) \<and> R i) [0..<length bins]"
    by (simp add: find_indices_def conj_commute)
  have e: "find_indices bins thr None nw' = filter (\<lambda>i. thr < bin_f_stat (bins ! i)) [0..<length bins]"
    by (simp add: find_indices_def)
  have f: "snd (mt_remove_fit d x sfreq lf' nw' window_fun thr)
     = map (\<lambda>i. bin_freq (spectrum d x window_fun sfreq ! i))
         (find_indices (spectrum d x window_fun sfreq) thr lf' nw')"
    by (simp add: mt_remove_fit_def Let_def)
  show ?thesis
    by (rule conjI[OF a conjI[OF b conjI[OF c conjI[OF g conjI[OF e f]]]]])
qed

text \<open>
  What \<open>line_filter\<close> hands down after its validation is an array with one width for
  every target, so every target has its range.
\<close>

lemma validated_widths_one_per_target:
  assumes "check_notch_widths (Some fr) nw = Inr (Some lf, Some w)"
  shows "\<exists>a. w = NdArray a \<and> arr_len a = arr_len lf \<and> lf = np_atleast_1d fr"
proof (cases nw)
  case None
  with assms show ?thesis
    by (auto simp: check_notch_widths_def Let_def np_true_divide_def length_arr_reals)
next
  case (Some v)
  with assms show ?thesis
    by (auto simp: check_notch_widths_def Let_def length_arr_reals
        arr_len_scalar_mul split: sum.splits bool.splits if_splits)
qed

lemma ex_two: "(\<exists>k. k < Suc (Suc 0) \<and> P k) = (P 0 \<or> P (Suc 0))"
  by (auto simp: less_Suc_eq)

text \<open>
  Five bins at 44, 46, 50, 58 and 64 Hz, all with the F statistic 5 but the bin at 58 Hz
  with 1, the threshold 3 and the targets 50 and 60 Hz. With the widths \<open>[2, 10]\<close> the
  ranges are \<open>[49, 51]\<close> and \<open>[55, 65]\<close>: bins 2 and 4. With the single width 10 they
  are \<open>[45, 55]\<close> and \<open>[55, 65]\<close>: bins 1, 2 and 4. With the list \<open>[10, 2.0]\<close> they are
  \<open>[45, 55]\<close> and \<open>[59, 61]\<close>: bins 1 and 2. Auto-detection keeps bins 0, 1, 2 and 4.
\<close>

theorem targeted_bins_per_target_witness:
  "find_indices [\<lparr>bin_freq = 44, bin_f_stat = 5, bin_A = 1\<rparr>,
                 \<lparr>bin_freq = 46, bin_f_stat = 5, bin_A = 1\<rparr>,
                 \<lparr>bin_freq = 50, bin_f_stat = 5, bin_A = 1\<rparr>,
                 \<lparr>bin_freq = 58, bin_f_stat = 1, bin_A = 1\<rparr>,
                 \<lparr>bin_freq = 64, bin_f_stat = 5, bin_A = 1\<rparr>] 3
      (Some (IntArray [50, 60])) (Some (NdArray (FloatArray [2, 10]))) = [2, 4]
   \<and> find_indices [\<lparr>bin_freq = 44, bin_f_stat = 5, bin_A = 1\<rparr>,
                 \<lparr>bin_freq = 46, bin_f_stat = 5, bin_A = 1\<rparr>,
                 \<lparr>bin_freq = 50, bin_f_stat = 5, bin_A = 1\<rparr>,
                 \<lparr>bin_freq = 58, bin_f_stat = 1, bin_A = 1\<rparr>,
                 \<lparr>bin_freq = 64, bin_f_stat = 5, bin_A = 1\<rparr>] 3
      (Some (IntArray [50, 60])) (Some (Scalar (PyInt 10))) = [1, 2, 4]
   \<and> find_indices [\<lparr>bin_freq = 44, bin_f_stat = 5, bin_A = 1\<rparr>,
                 \<lparr>bin_freq = 46, bin_f_stat = 5, bin_A = 1\<rparr>,
                 \<lparr>bin_freq = 50, bin_f_stat = 5, bin_A = 1\<rparr>,
                 \<lparr>bin_freq = 58, bin_f_stat = 1, bin_A = 1\<rparr>,
                 \<lparr>bin_freq = 64, bin_f_stat = 5, bin_A = 1\<rparr>] 3
      (Some (IntArray [50, 60])) (Some (PyList [PyInt 10, PyFloat 2])) = [1, 2]
   \<and> find_indices [\<lparr>bin_freq = 44, bin_f_stat = 5, bin_A = 1\<rparr>,
                 \<lparr>bin_freq = 46, bin_f_stat = 5, bin_A = 1\<rparr>,
                 \<lparr>bin_freq = 50, bin_f_stat = 5, bin_A = 1\<rparr>,
                 \<lparr>bin_freq = 58, bin_f_stat = 1, bin_A = 1\<rparr>,
                 \<lparr>bin_freq = 64, bin_f_stat = 5, bin_A = 1\<rparr>] 3 None None = [0, 1, 2, 4]"
proof -
  let ?B = "[\<lparr>bin_freq = 44, bin_f_stat = 5, bin_A = 1\<rparr>,
                 \<lparr>bin_freq = 46, bin_f_stat = 5, bin_A = 1\<rparr>,
                 \<lparr>bin_freq = 50, bin_f_stat = 5, bin_A = 1\<rparr>,
                 \<lparr>bin_freq = 58, bin_f_stat = 1, bin_A = 1\<rparr>,
                 \<lparr>bin_freq = 64, bin_f_stat = 5, bin_A = (1::complex)\<rparr>]"
  have u: "[0..<length ?B] = [0, 1, 2, 3, 4]"
    by (simp add: upt_rec[of 0] upt_rec[of 1] upt_rec[of 2] upt_rec[of 3] upt_rec[of 4])
  note t = targeted_bins_per_target[of ?B 3 "IntArray [50, 60]" "FloatArray [2, 10]"
      "PyInt 10" "[PyInt 10, PyFloat 2]" "\<lambda>i. True" None]
  have a: "find_indices ?B 3 (Some (IntArray [50, 60])) (Some (NdArray (FloatArray [2, 10]))) = [2, 4]"
    unfolding t[THEN conjunct1] u by (simp add: ex_two)
  have b: "find_indices ?B 3 (Some (IntArray [50, 60])) (Some (Scalar (PyInt 10))) = [1, 2, 4]"
    unfolding t[THEN conjunct2, THEN conjunct1] u by (simp add: ex_two)
  have c: "find_indices ?B 3 (Some (IntArray [50, 60])) (Some (PyList [PyInt 10, PyFloat 2])) = [1, 2]"
    unfolding t[THEN conjunct2, THEN conjunct2, THEN conjunct1] u by (simp add: ex_two)
  have e: "find_indices ?B 3 None None = [0, 1, 2, 4]"
    unfolding t[THEN conjunct2, THEN conjunct2, THEN conjunct2, THEN conjunct2, THEN conjunct1] u
    by simp
  show ?thesis by (rule conjI[OF a conjI[OF b conjI[OF c e]]])
qed

subsection \<open>C2: what is subtracted from a chunk\<close>

lemma np_sum_axis0_nth:
  "n < m \<Longrightarrow> np_sum_axis0 m fits ! n = sum_list (map (\<lambda>fit. fit ! n) fits)"
  by (simp add: np_sum_axis0_def)

lemma length_mt_remove_fit:
  "length (fst (mt_remove_fit d x sfreq lf nw w t)) = length x"
  by (simp add: mt_remove_fit_def Let_def np_sum_axis0_def)

lemma mt_remove_fit_no_bins:
  "find_indices (spectrum d x w sfreq) t lf nw = [] \<Longrightarrow>
   mt_remove_fit d x sfreq lf nw w t = (x, [])"
  by (simp add: mt_remove_fit_def Let_def)

lemma length_np_sum_axis0: "length (np_sum_axis0 m fits) = m"
  by (simp add: np_sum_axis0_def)

lemma mt_remove_fit_nth:
  assumes "n < length x"
  shows "fst (mt_remove_fit d x sfreq lf nw w t) ! n
           = x ! n - (\<Sum>i\<leftarrow>find_indices (spectrum d x w sfreq) t lf nw.
                 cmod (2 * bin_A (spectrum d x w sfreq ! i))
                 * cos (2 * pi * bin_freq (spectrum d x w sfreq ! i) * (real n / sfreq)
                        + np_angle (2 * bin_A (spectrum d x w sfreq ! i))))"
proof (cases "find_indices (spectrum d x w sfreq) t lf nw = []")
  case True
  then show ?thesis using assms by (simp add: mt_remove_fit_no_bins)
next
  case False
  define bins where "bins = spectrum d x w sfreq"
  define idx where "idx = find_indices bins t lf nw"
  define fit where "fit = (\<lambda>ind. map (\<lambda>r. cmod (2 * bin_A (bins ! ind))
                  * cos (bin_freq (bins ! ind) * r + np_angle (2 * bin_A (bins ! ind))))
                 (map (\<lambda>n. 2 * pi * (real n / sfreq)) [0..<length x]))"
  have fst_eq: "fst (mt_remove_fit d x sfreq lf nw w t)
                  = map2 (\<lambda>v f. v - f) x (np_sum_axis0 (length x) (map fit idx))"
    using False by (simp add: mt_remove_fit_def Let_def bins_def idx_def fit_def)
  have fit_n: "fit i ! n = cmod (2 * bin_A (bins ! i))
                 * cos (2 * pi * bin_freq (bins ! i) * (real n / sfreq)
                        + np_angle (2 * bin_A (bins ! i)))" for i
  proof -
    have e: "bin_freq (bins ! i) * (2 * pi * (real n / sfreq))
               = 2 * pi * bin_freq (bins ! i) * (real n / sfreq)"
      by (simp add: mult_ac)
    have "fit i ! n = cmod (2 * bin_A (bins ! i))
            * cos (bin_freq (bins ! i) * (2 * pi * (real n / sfreq))
                   + np_angle (2 * bin_A (bins ! i)))"
      unfolding fit_def using assms by (simp only: nth_map length_map length_upt nth_upt) simp
    then show ?thesis by (simp only: e)
  qed
  have "fst (mt_remove_fit d x sfreq lf nw w t) ! n
          = x ! n - np_sum_axis0 (length x) (map fit idx) ! n"
    using assms by (simp add: fst_eq length_np_sum_axis0)
  also have "np_sum_axis0 (length x) (map fit idx) ! n = (\<Sum>i\<leftarrow>idx. fit i ! n)"
    using assms by (simp add: np_sum_axis0_nth comp_def)
  finally show ?thesis by (simp only: fit_n idx_def bins_def)
qed

text \<open>
  Where the head of \<open>_mt_remove\<close> settles a taper set \<open>w\<close> and a threshold \<open>t\<close> for the
  chunk, the rest is the same in both files: the returned chunk has the length of the
  input and its sample \<open>n\<close> is the input sample minus the sum, over the significant bins,
  of \<open>|2 A| cos(2 pi f (n / sfreq) + angle(2 A))\<close>; with no significant bin the chunk is
  returned as it was. In \<^verbatim>\<open>filter.py\<close> the head settles them whenever \<open>get_thresh\<close>
  returns for the chunk's length; in \<^verbatim>\<open>mt_filter.py\<close> only when the chunk has the window's
  length.
\<close>

lemma remover_subtracts_fitted_sinusoids:
  assumes "sfreq \<noteq> 0"
    and "(tp = chunk_tapers x window_fun threshold g
            \<and> r = mt_remove d x sfreq lf nw window_fun threshold g)
         \<or> (tp = ieeg_chunk_tapers x window_fun threshold g
            \<and> r = ieeg_mt_remove d x sfreq lf nw window_fun threshold g)"
    and "tp = Inr (w, t)"
  shows "\<exists>y. r = Inr (y, map (\<lambda>i. bin_freq (spectrum d x w sfreq ! i))
                          (find_indices (spectrum d x w sfreq) t lf nw))
           \<and> length y = length x
           \<and> (\<forall>n < length x.
                 y ! n = x ! n - (\<Sum>i\<leftarrow>find_indices (spectrum d x w sfreq) t lf nw.
                   cmod (2 * bin_A (spectrum d x w sfreq ! i))
                   * cos (2 * pi * bin_freq (spectrum d x w sfreq ! i) * (real n / sfreq)
                          + np_angle (2 * bin_A (spectrum d x w sfreq ! i)))))
           \<and> (find_indices (spectrum d x w sfreq) t lf nw = [] \<longrightarrow> y = x)"
proof -
  have r: "r = Inr (mt_remove_fit d x sfreq lf nw w t)"
  proof -
    from assms(2,3) consider
        "chunk_tapers x window_fun threshold g = Inr (w, t)"
          "r = mt_remove d x sfreq lf nw window_fun threshold g"
      | "ieeg_chunk_tapers x window_fun threshold g = Inr (w, t)"
          "r = ieeg_mt_remove d x sfreq lf nw window_fun threshold g"
      by auto
    then show ?thesis
      by cases (simp_all add: mt_remove_def ieeg_mt_remove_def)
  qed
  have snd: "snd (mt_remove_fit d x sfreq lf nw w t)
               = map (\<lambda>i. bin_freq (spectrum d x w sfreq ! i))
                   (find_indices (spectrum d x w sfreq) t lf nw)"
    by (simp add: mt_remove_fit_def Let_def)
  show ?thesis
  proof (intro exI[of _ "fst (mt_remove_fit d x sfreq lf nw w t)"] conjI allI impI)
    show "r = Inr (fst (mt_remove_fit d x sfreq lf nw w t),
                   map (\<lambda>i. bin_freq (spectrum d x w sfreq ! i))
                     (find_indices (spectrum d x w sfreq) t lf nw))"
      using r snd by (metis prod.collapse)
  qed (simp_all add: length_mt_remove_fit mt_remove_fit_nth mt_remove_fit_no_bins)
qed

lemma np_angle_one: "np_angle 1 = 0"
  by (simp add: np_angle_def arctan2_def)

text \<open>
  The chunk \<open>[3, 5]\<close> at 4 Hz in the example environment: the constant component of
  amplitude 1 is the only significant bin, and both files return \<open>[2, 4]\<close>.
\<close>

lemma remover_subtracts_fitted_sinusoids_example:
  "mt_remove example_deps [3, 5] 4 None None [[1, 1]] 3 (\<lambda>n. Inl ValueError) = Inr ([2, 4], [0])
   \<and> ieeg_mt_remove example_deps [3, 5] 4 None None [[1, 1]] 3 (\<lambda>n. Inl ValueError) = Inr ([2, 4], [0])"
proof -
  have s: "spectrum example_deps [3, 5] [[1, 1]] 4
             = [\<lparr>bin_freq = 0, bin_f_stat = 5, bin_A = 1 / 2\<rparr>,
                \<lparr>bin_freq = 2, bin_f_stat = 1, bin_A = 0\<rparr>]"
    by (simp add: example_deps_def)
  have i: "find_indices [\<lparr>bin_freq = 0, bin_f_stat = 5, bin_A = 1 / 2\<rparr>,
                \<lparr>bin_freq = 2, bin_f_stat = 1, bin_A = 0\<rparr>] 3 None None = [0]"
    by (simp add: find_indices_def)
  have t1: "chunk_tapers [3, 5] [[1, 1]] 3 (\<lambda>n. Inl ValueError) = Inr ([[1, 1]], 3)"
    by (simp add: chunk_tapers_def)
  have t2: "ieeg_chunk_tapers [3, 5] [[1, 1]] 3 (\<lambda>n. Inl ValueError) = Inr ([[1, 1]], 3)"
    by (simp add: ieeg_chunk_tapers_def)
  have n0: "(4::real) \<noteq> 0" by simp
  from remover_subtracts_fitted_sinusoids[OF n0 disjI1[OF conjI[OF refl refl]] t1,
      of example_deps None None]
  obtain y where y: "mt_remove example_deps [3, 5] 4 None None [[1, 1]] 3 (\<lambda>n. Inl ValueError)
                       = Inr (y, [0])" "length y = 2" "y ! 0 = 2" "y ! 1 = 4"
    by (auto simp: i s np_angle_one)
  then have "y = [2, 4]"
    by (cases y; cases "tl y") auto
  moreover
  from remover_subtracts_fitted_sinusoids[OF n0 disjI2[OF conjI[OF refl refl]] t2,
      of example_deps None None]
  obtain z where z: "ieeg_mt_remove example_deps [3, 5] 4 None None [[1, 1]] 3 (\<lambda>n. Inl ValueError)
                       = Inr (z, [0])" "length z = 2" "z ! 0 = 2" "z ! 1 = 4"
    by (auto simp: i s np_angle_one)
  then have "z = [2, 4]"
    by (cases z; cases "tl z") auto
  ultimately show ?thesis using y z by simp
qed

text \<open>
  C2 in \<^verbatim>\<open>mt_filter.py\<close>: the claim is of every chunk, and promises that a chunk
  without a significant bin is returned unmodified and without an error. A chunk of 5
  samples met with a taper matrix of 4 columns raises AttributeError, whatever
  \<open>get_thresh\<close> is, although none of its bins is significant at the threshold 10 (the F
  statistics are 5 and 1); \<^verbatim>\<open>filter.py\<close> returns the same chunk as it was. It is the
  defect of C8, seen from the chunk that is returned.
\<close>

theorem ieeg_remover_raises_without_significant_bin:
  "ieeg_mt_remove example_deps [1, 2, 3, 4, 5] 4 None None [[1, 1, 1, 1]] 10 g = Inl AttributeError
   \<and> find_indices (spectrum example_deps [1, 2, 3, 4, 5] [[1, 1, 1, 1, 1]] 4) 10 None None = []
   \<and> mt_remove example_deps [1, 2, 3, 4, 5] 4 None None [[1, 1, 1, 1]] 10
        (\<lambda>n. Inr ([[1, 1, 1, 1, 1]], 10)) = Inr ([1, 2, 3, 4, 5], [])"
  by (simp add: ieeg_mt_remove_def ieeg_chunk_tapers_def mt_remove_def chunk_tapers_def
      mt_remove_fit_def find_indices_def example_deps_def Let_def)

subsection \<open>The overlap-add loop: cursor and lengths\<close>

lemma length_crossfade_from:
  "length (crossfade_from L j xs ys) = max (length xs) (length ys)"
  by (induction L j xs ys rule: crossfade_from.induct) auto

lemma length_crossfade: "length (crossfade xs ys) = max (length xs) (length ys)"
  by (simp add: crossfade_def length_crossfade_from)

text \<open>The two ramps sum to one: a crossfade of a signal with itself is that signal.\<close>

lemma crossfade_from_same: "crossfade_from L j (take m ys) ys = ys"
proof (induction ys arbitrary: j m)
  case Nil
  then show ?case by simp
next
  case (Cons y ys)
  show ?case
  proof (cases m)
    case 0
    then show ?thesis by simp
  next
    case (Suc k)
    have "(1 - real (Suc j) / real (Suc L)) * y + real (Suc j) / real (Suc L) * y = y"
      by (simp add: algebra_simps)
    then show ?thesis using Suc Cons.IH[of "Suc j" k] by simp
  qed
qed

lemma crossfade_same: "crossfade (take m ys) ys = ys"
  by (simp add: crossfade_def crossfade_from_same)

lemma cola_starts_nonempty: "cola_starts n_total n_samples hop start \<noteq> []"
  by (subst cola_starts.simps) simp

text \<open>
  With a hop that is positive and at most the window, every sample lies in some window: the
  windows leave no gap.
\<close>

lemma cola_starts_cover:
  "hop \<le> n_samples \<Longrightarrow> 0 < hop \<or> n_total \<le> start + n_samples \<Longrightarrow> start \<le> i \<Longrightarrow> i < n_total \<Longrightarrow>
   \<exists>s \<in> set (cola_starts n_total n_samples hop start). s \<le> i \<and> i < s + n_samples"
proof (induction n_total n_samples hop start rule: cola_starts.induct)
  case (1 n_total n_samples hop start)
  show ?case
  proof (cases "hop = 0 \<or> n_total \<le> start + n_samples")
    case True
    with "1.prems" have "n_total \<le> start + n_samples" by auto
    moreover have "cola_starts n_total n_samples hop start = [start]"
      using True by (subst cola_starts.simps) simp
    ultimately show ?thesis using "1.prems" by simp
  next
    case False
    have starts: "cola_starts n_total n_samples hop start
                    = start # cola_starts n_total n_samples hop (start + hop)"
      using False by (subst cola_starts.simps) simp
    show ?thesis
    proof (cases "i < start + hop")
      case True
      then show ?thesis using "1.prems" starts by auto
    next
      case far: False
      have "\<exists>s \<in> set (cola_starts n_total n_samples hop (start + hop)). s \<le> i \<and> i < s + n_samples"
        using "1.IH"[OF False] "1.prems" False far by simp
      then show ?thesis using starts by auto
    qed
  qed
qed

lemma store_ok:
  assumes "idx st + length chunk \<le> length (x_out st)"
  shows "\<exists>st'. store chunk st = Inr st' \<and> idx st' = idx st + length chunk
           \<and> length (x_out st') = length (x_out st) \<and> rm_freqs st' = rm_freqs st"
  using assms by (simp add: store_def Let_def)

lemma store_preserves:
  assumes "store chunk st = Inr st'"
  shows "idx st' = idx st + length chunk \<and> length (x_out st') = length (x_out st)
           \<and> rm_freqs st' = rm_freqs st"
  using assms by (auto simp: store_def Let_def split: if_splits)

lemma process_preserves:
  assumes "process remove chunk st = Inr (out, st')"
  shows "remove chunk = Inr (out, last (rm_freqs st')) \<and> idx st' = idx st \<and> x_out st' = x_out st
           \<and> rm_freqs st' = rm_freqs st @ [last (rm_freqs st')]"
  using assms by (auto simp: process_def split: sum.splits)

lemma cola_loop_cursor:
  assumes PP: "\<And>chunk s out s'. process_fn chunk s = Inr (out, s') \<Longrightarrow>
                 length out = length chunk \<and> idx s' = idx s \<and> length (x_out s') = length (x_out s)"
  shows "length x = n_total \<Longrightarrow> hop \<le> n_samples \<Longrightarrow> idx st = start \<Longrightarrow> start \<le> n_total \<Longrightarrow>
         length buf \<le> n_samples - hop \<Longrightarrow> start + length buf \<le> n_total \<Longrightarrow>
         length (x_out st) = n_total \<Longrightarrow> 0 < hop \<or> n_total \<le> start + n_samples \<Longrightarrow>
         cola_loop process_fn store n_samples hop x (cola_starts n_total n_samples hop start) buf st
           = Inr st' \<Longrightarrow>
         idx st' = n_total \<and> length (x_out st') = n_total"
proof (induction n_total n_samples hop start arbitrary: buf st rule: cola_starts.induct)
  case (1 n_total n_samples hop start)
  let ?chunk = "take n_samples (drop start x)"
  show ?case
  proof (cases "hop = 0 \<or> n_total \<le> start + n_samples")
    case True
    with "1.prems" have cover: "n_total \<le> start + n_samples" by auto
    have starts: "cola_starts n_total n_samples hop start = [start]"
      using True by (subst cola_starts.simps) simp
    from "1.prems"(9) obtain out st1 where
      p: "process_fn ?chunk st = Inr (out, st1)" and
      s: "store (crossfade buf out) st1 = Inr st'"
      unfolding starts by (auto split: sum.splits simp: Let_def)
    have len_chunk: "length ?chunk = n_total - start"
      using cover "1.prems"(1,4) by simp
    from PP[OF p] have o: "length out = n_total - start" "idx st1 = start"
      "length (x_out st1) = n_total"
      using len_chunk "1.prems" by simp_all
    have "length (crossfade buf out) = n_total - start"
      using o "1.prems"(6) by (simp add: length_crossfade)
    with store_preserves[OF s] o "1.prems"(4) show ?thesis by simp
  next
    case False
    then have hop: "0 < hop" and far: "start + n_samples < n_total" by auto
    have starts: "cola_starts n_total n_samples hop start
                    = start # cola_starts n_total n_samples hop (start + hop)"
      using False by (subst cola_starts.simps) simp
    from "1.prems"(9) obtain out st1 st2 where
      p: "process_fn ?chunk st = Inr (out, st1)" and
      s: "store (take hop (crossfade buf out)) st1 = Inr st2" and
      l: "cola_loop process_fn store n_samples hop x
            (cola_starts n_total n_samples hop (start + hop))
            (drop hop (crossfade buf out)) st2 = Inr st'"
      unfolding starts by (auto split: sum.splits simp: Let_def cola_starts_nonempty)
    have len_chunk: "length ?chunk = n_samples"
      using far "1.prems"(1) by simp
    from PP[OF p] have o: "length out = n_samples" "idx st1 = start"
      "length (x_out st1) = n_total"
      using len_chunk "1.prems" by simp_all
    have lb: "length (crossfade buf out) = n_samples"
      using o "1.prems"(5) by (simp add: length_crossfade)
    from store_preserves[OF s] have s2: "idx st2 = start + hop" "length (x_out st2) = n_total"
      using o lb "1.prems"(2) by simp_all
    show ?thesis
    proof (rule "1.IH"[OF False _ _ _ _ _ _ _ _ l])
      show "length x = n_total" by (rule "1.prems"(1))
      show "hop \<le> n_samples" by (rule "1.prems"(2))
      show "idx st2 = start + hop" by (rule s2)
      show "start + hop \<le> n_total" using far "1.prems"(2) by simp
      show "length (drop hop (crossfade buf out)) \<le> n_samples - hop" using lb by simp
      show "start + hop + length (drop hop (crossfade buf out)) \<le> n_total"
        using lb far "1.prems"(2) by simp
      show "length (x_out st2) = n_total" by (rule s2)
      show "0 < hop \<or> n_total \<le> start + hop + n_samples" using hop by simp
    qed
  qed
qed

lemma cola_loop_returns:
  assumes PP: "\<And>chunk s out s'. process_fn chunk s = Inr (out, s') \<Longrightarrow>
                 length out = length chunk \<and> idx s' = idx s \<and> length (x_out s') = length (x_out s)"
    and PT: "\<And>chunk s. chunk \<noteq> [] \<Longrightarrow> \<exists>out s'. process_fn chunk s = Inr (out, s')"
  shows "length x = n_total \<Longrightarrow> hop \<le> n_samples \<Longrightarrow> idx st = start \<Longrightarrow> start < n_total \<Longrightarrow>
         length buf \<le> n_samples - hop \<Longrightarrow> start + length buf \<le> n_total \<Longrightarrow>
         length (x_out st) = n_total \<Longrightarrow> 0 < hop \<or> n_total \<le> start + n_samples \<Longrightarrow>
         \<exists>st'. cola_loop process_fn store n_samples hop x
                 (cola_starts n_total n_samples hop start) buf st = Inr st'"
proof (induction n_total n_samples hop start arbitrary: buf st rule: cola_starts.induct)
  case (1 n_total n_samples hop start)
  let ?chunk = "take n_samples (drop start x)"
  show ?case
  proof (cases "hop = 0 \<or> n_total \<le> start + n_samples")
    case True
    with "1.prems" have cover: "n_total \<le> start + n_samples" by auto
    have starts: "cola_starts n_total n_samples hop start = [start]"
      using True by (subst cola_starts.simps) simp
    have len_chunk: "length ?chunk = n_total - start"
      using cover "1.prems"(1,4) by simp
    then have "?chunk \<noteq> []" using "1.prems"(4) by auto
    from PT[OF this] obtain out st1 where p: "process_fn ?chunk st = Inr (out, st1)" by blast
    from PP[OF p] have o: "length out = n_total - start" "idx st1 = start"
      "length (x_out st1) = n_total"
      using len_chunk "1.prems" by simp_all
    have "length (crossfade buf out) = n_total - start"
      using o "1.prems"(6) by (simp add: length_crossfade)
    then have "idx st1 + length (crossfade buf out) \<le> length (x_out st1)"
      using o "1.prems"(4) by simp
    from store_ok[OF this] obtain st2 where "store (crossfade buf out) st1 = Inr st2" by blast
    then show ?thesis unfolding starts using p by (simp add: Let_def)
  next
    case False
    then have hop: "0 < hop" and far: "start + n_samples < n_total" by auto
    have starts: "cola_starts n_total n_samples hop start
                    = start # cola_starts n_total n_samples hop (start + hop)"
      using False by (subst cola_starts.simps) simp
    have len_chunk: "length ?chunk = n_samples"
      using far "1.prems"(1) by simp
    then have "?chunk \<noteq> []" using hop "1.prems"(2) by auto
    from PT[OF this] obtain out st1 where p: "process_fn ?chunk st = Inr (out, st1)" by blast
    from PP[OF p] have o: "length out = n_samples" "idx st1 = start"
      "length (x_out st1) = n_total"
      using len_chunk "1.prems" by simp_all
    have lb: "length (crossfade buf out) = n_samples"
      using o "1.prems"(5) by (simp add: length_crossfade)
    have "idx st1 + length (take hop (crossfade buf out)) \<le> length (x_out st1)"
      using o lb far "1.prems"(2) by simp
    from store_ok[OF this] obtain st2 where
      s: "store (take hop (crossfade buf out)) st1 = Inr st2" and
      s2: "idx st2 = idx st1 + length (take hop (crossfade buf out))"
          "length (x_out st2) = length (x_out st1)"
      by blast
    have "\<exists>st'. cola_loop process_fn store n_samples hop x
            (cola_starts n_total n_samples hop (start + hop))
            (drop hop (crossfade buf out)) st2 = Inr st'"
    proof (rule "1.IH"[OF False])
      show "length x = n_total" by (rule "1.prems"(1))
      show "hop \<le> n_samples" by (rule "1.prems"(2))
      show "idx st2 = start + hop" using s2 o lb "1.prems"(2) by simp
      show "start + hop < n_total" using far "1.prems"(2) by simp
      show "length (drop hop (crossfade buf out)) \<le> n_samples - hop" using lb by simp
      show "start + hop + length (drop hop (crossfade buf out)) \<le> n_total"
        using lb far "1.prems"(2) by simp
      show "length (x_out st2) = n_total" using s2 o by simp
      show "0 < hop \<or> n_total \<le> start + hop + n_samples" using hop by simp
    qed
    then show ?thesis unfolding starts using p s by (simp add: Let_def cola_starts_nonempty)
  qed
qed

lemma mt_remove_length:
  assumes "mt_remove d chunk sfreq lf nw win thr g = Inr out"
  shows "length (fst out) = length chunk"
  using assms by (auto simp: mt_remove_def length_mt_remove_fit split: sum.splits)

lemma ieeg_mt_remove_length:
  assumes "ieeg_mt_remove d chunk sfreq lf nw win thr g = Inr out"
  shows "length (fst out) = length chunk"
  using assms by (auto simp: ieeg_mt_remove_def length_mt_remove_fit split: sum.splits)

lemma process_keeps_cursor:
  assumes R: "\<And>c out. remove c = Inr out \<Longrightarrow> length (fst out) = length c"
    and "process remove chunk s = Inr (out, s')"
  shows "length out = length chunk \<and> idx s' = idx s \<and> length (x_out s') = length (x_out s)"
  using assms(2) R by (auto simp: process_def split: sum.splits)

lemma hop_le: "n - n_overlap n \<le> n"
  by simp

lemma cola_feed_cursor:
  assumes R: "\<And>c out. remove c = Inr out \<Longrightarrow> length (fst out) = length c"
    and "cola_feed (process remove) store (length x) n_samples (n_overlap n_samples) x
           \<lparr>x_out = map (\<lambda>_. 0) x, rm_freqs = [], idx = 0\<rparr> = Inr st"
  shows "idx st = length x \<and> length (x_out st) = length x"
proof -
  let ?hop = "n_samples - n_overlap n_samples"
  from assms(2) have ok: "\<not> (?hop = 0 \<and> n_samples < length x)" and
    l: "cola_loop (process remove) store n_samples ?hop x
          (cola_starts (length x) n_samples ?hop 0) []
          \<lparr>x_out = map (\<lambda>_. 0) x, rm_freqs = [], idx = 0\<rparr> = Inr st"
    by (auto simp: cola_feed_def Let_def split: if_splits)
  show ?thesis
  proof (rule cola_loop_cursor[OF _ _ _ _ _ _ _ _ _ l])
    show "0 < ?hop \<or> length x \<le> 0 + n_samples" using ok by auto
  qed (use process_keeps_cursor[OF R] in \<open>simp_all\<close>)
qed

subsection \<open>The overlap-add loop: the identity transform is reconstructed\<close>

text \<open>
  With a \<open>process\<close> that returns every window as it receives it, the two ramps of the
  crossfade weigh the same sample and sum to one: \<open>feed\<close> returns, and what \<open>store\<close> has
  written is the input.
\<close>

lemma map2_add_zeros: "length ys = n \<Longrightarrow> map2 (\<lambda>a b. a + b) (replicate n (0::real)) ys = ys"
proof (induction ys arbitrary: n)
  case Nil
  then show ?case by simp
next
  case (Cons y ys)
  then show ?case by (cases n) simp_all
qed

lemma store_into_zeros:
  assumes x: "x_out st = pre @ replicate m 0" and i: "idx st = length pre"
    and l: "length chunk \<le> m"
  shows "store chunk st
           = Inr (st\<lparr>x_out := pre @ chunk @ replicate (m - length chunk) 0,
                     idx := length pre + length chunk\<rparr>)"
proof -
  have t: "take (length chunk) (drop (idx st) (x_out st)) = replicate (length chunk) 0"
    using x i l by (simp add: min_def)
  have d: "drop (idx st + length chunk) (x_out st) = replicate (m - length chunk) 0"
    using x i l by simp
  have p: "take (idx st) (x_out st) = pre"
    using x i by simp
  show ?thesis
    unfolding store_def Let_def t d p
    by (simp add: map2_add_zeros i)
qed

lemma cola_loop_identity:
  "length x = n_total \<Longrightarrow> hop \<le> n_samples \<Longrightarrow> start \<le> n_total \<Longrightarrow>
   buf = take (length buf) (drop start x) \<Longrightarrow> length buf \<le> n_samples - hop \<Longrightarrow>
   x_out st = take start x @ replicate (n_total - start) 0 \<Longrightarrow> idx st = start \<Longrightarrow>
   0 < hop \<or> n_total \<le> start + n_samples \<Longrightarrow>
   \<exists>st'. cola_loop (\<lambda>chunk s. Inr (chunk, s)) store n_samples hop x
           (cola_starts n_total n_samples hop start) buf st = Inr st'
         \<and> x_out st' = x \<and> idx st' = n_total \<and> rm_freqs st' = rm_freqs st"
proof (induction n_total n_samples hop start arbitrary: buf st rule: cola_starts.induct)
  case (1 n_total n_samples hop start)
  let ?chunk = "take n_samples (drop start x)"
  have pre: "length (take start x) = start" using "1.prems"(1,3) by simp
  have buf: "buf = take (length buf) ?chunk"
  proof -
    have "take (length buf) ?chunk = take (min (length buf) n_samples) (drop start x)"
      by simp
    also have "min (length buf) n_samples = length buf" using "1.prems"(5) by simp
    finally show ?thesis using "1.prems"(4) by simp
  qed
  have cf: "crossfade buf ?chunk = ?chunk"
    by (subst buf) (rule crossfade_same)
  show ?case
  proof (cases "hop = 0 \<or> n_total \<le> start + n_samples")
    case True
    with "1.prems" have cover: "n_total \<le> start + n_samples" by auto
    have starts: "cola_starts n_total n_samples hop start = [start]"
      using True by (subst cola_starts.simps) simp
    have chunk: "?chunk = drop start x" using cover "1.prems"(1) by simp
    have len: "length ?chunk = n_total - start" using chunk "1.prems"(1) by simp
    have s: "store ?chunk st
               = Inr (st\<lparr>x_out := take start x @ ?chunk @ replicate (n_total - start - length ?chunk) 0,
                         idx := length (take start x) + length ?chunk\<rparr>)"
      by (rule store_into_zeros) (use "1.prems" pre len in simp_all)
    show ?thesis
      unfolding starts using s cf len chunk "1.prems"(3) pre
      by (simp add: Let_def)
  next
    case False
    then have hop: "0 < hop" and far: "start + n_samples < n_total" by auto
    have starts: "cola_starts n_total n_samples hop start
                    = start # cola_starts n_total n_samples hop (start + hop)"
      using False by (subst cola_starts.simps) simp
    have len: "length ?chunk = n_samples" using far "1.prems"(1) by simp
    let ?seg = "take hop ?chunk"
    have lseg: "length ?seg = hop" using len "1.prems"(2) by simp
    let ?st2 = "st\<lparr>x_out := take start x @ ?seg @ replicate (n_total - start - length ?seg) 0,
                     idx := length (take start x) + length ?seg\<rparr>"
    have s: "store ?seg st = Inr ?st2"
      by (rule store_into_zeros) (use "1.prems" pre lseg far in simp_all)
    have seg: "?seg = take hop (drop start x)" using "1.prems"(2) by (simp add: min_def)
    have tk: "take start x @ ?seg = take (start + hop) x"
      unfolding seg by (simp add: take_add)
    have "\<exists>st'. cola_loop (\<lambda>chunk s. Inr (chunk, s)) store n_samples hop x
            (cola_starts n_total n_samples hop (start + hop)) (drop hop ?chunk) ?st2 = Inr st'
          \<and> x_out st' = x \<and> idx st' = n_total \<and> rm_freqs st' = rm_freqs ?st2"
    proof (rule "1.IH"[OF False])
      show "length x = n_total" by (rule "1.prems"(1))
      show "hop \<le> n_samples" by (rule "1.prems"(2))
      show "start + hop \<le> n_total" using far "1.prems"(2) by simp
      show "drop hop ?chunk = take (length (drop hop ?chunk)) (drop (start + hop) x)"
        using len by (simp add: drop_take add.commute)
      show "length (drop hop ?chunk) \<le> n_samples - hop" using len by simp
      show "x_out ?st2 = take (start + hop) x @ replicate (n_total - (start + hop)) 0"
        using tk lseg by simp
      show "idx ?st2 = start + hop" using pre lseg by simp
      show "0 < hop \<or> n_total \<le> start + hop + n_samples" using hop by simp
    qed
    then show ?thesis
      unfolding starts using s cf by (simp add: Let_def cola_starts_nonempty)
  qed
qed

lemma cola_feed_identity:
  assumes "2 \<le> n_samples \<or> length x \<le> n_samples"
  shows "\<exists>st'. cola_feed (\<lambda>chunk s. Inr (chunk, s)) store (length x) n_samples
                 (n_overlap n_samples) x \<lparr>x_out = map (\<lambda>_. 0) x, rm_freqs = [], idx = 0\<rparr>
               = Inr st'
             \<and> x_out st' = x \<and> idx st' = length x"
proof -
  let ?hop = "n_samples - n_overlap n_samples"
  let ?st0 = "\<lparr>x_out = map (\<lambda>_. 0) x, rm_freqs = [], idx = 0\<rparr>"
  have hop: "0 < ?hop \<or> length x \<le> 0 + n_samples"
    using assms unfolding n_overlap_def by auto
  have "\<exists>st'. cola_loop (\<lambda>chunk s. Inr (chunk, s)) store n_samples ?hop x
           (cola_starts (length x) n_samples ?hop 0) [] ?st0 = Inr st'
         \<and> x_out st' = x \<and> idx st' = length x \<and> rm_freqs st' = rm_freqs ?st0"
    by (rule cola_loop_identity) (use hop in \<open>simp_all add: map_replicate_const\<close>)
  then show ?thesis using hop by (auto simp: cola_feed_def Let_def)
qed

subsection \<open>One channel\<close>

lemma mt_remove_win_feed_cursor:
  assumes "mt_remove_win_feed d ch sfreq lf nw g = Inr st"
  shows "idx st = length ch \<and> length (x_out st) = length ch"
proof -
  from assms obtain window_fun thresh where
    f: "cola_feed (process (\<lambda>chunk. mt_remove d chunk sfreq lf nw window_fun thresh g)) store
          (length ch) (n_cols window_fun) (n_overlap (n_cols window_fun)) ch
          \<lparr>x_out = map (\<lambda>_. 0) ch, rm_freqs = [], idx = 0\<rparr> = Inr st"
    by (auto simp: mt_remove_win_feed_def Let_def split: sum.splits)
  show ?thesis
    by (rule cola_feed_cursor[OF _ f]) (rule mt_remove_length)
qed

lemma WindowingRemover_feed_cursor:
  assumes "WindowingRemover_feed d self ch = Inr st"
  shows "idx st = length ch \<and> length (x_out st) = length ch"
proof -
  from assms obtain window_fun thresh where
    f: "cola_feed (process (\<lambda>chunk. ieeg_mt_remove d chunk (self_sfreq self) (self_line_freqs self)
                                (self_notch_width self) window_fun thresh (get_thresh d self))) store
          (length ch) (n_cols window_fun) (n_overlap (n_cols window_fun)) ch
          \<lparr>x_out = map (\<lambda>_. 0) ch, rm_freqs = [], idx = 0\<rparr> = Inr st"
    by (auto simp: WindowingRemover_feed_def Let_def split: sum.splits)
  show ?thesis
    by (rule cola_feed_cursor[OF _ f]) (rule ieeg_mt_remove_length)
qed

lemma mt_remove_win_length:
  assumes "mt_remove_win d ch sfreq lf nw g = Inr (out, f)"
  shows "length out = length ch"
  using assms mt_remove_win_feed_cursor
  by (fastforce simp: mt_remove_win_def split: sum.splits if_splits)

lemma WindowingRemover_call_length:
  assumes "WindowingRemover_call d self ch = Inr (out, rep)"
  shows "length out = length ch"
  using assms WindowingRemover_feed_cursor
  by (fastforce simp: WindowingRemover_call_def split: sum.splits if_splits)

text \<open>
  \<open>_mt_remove_win\<close> returns, with an output of the channel's length, whenever \<open>get_thresh\<close>
  succeeds for the default length and for every chunk length, the channel is not empty, and
  the window has at least two samples or covers the channel.
\<close>

lemma mt_remove_win_returns:
  assumes g0: "g None = Inr (win, thr)"
    and gn: "\<And>n. 0 < n \<Longrightarrow> \<exists>w t. g (Some n) = Inr (w, t)"
    and ne: "ch \<noteq> []"
    and hop: "2 \<le> n_cols win \<or> length ch \<le> n_cols win"
  shows "\<exists>out f. mt_remove_win d ch sfreq lf nw g = Inr (out, f) \<and> length out = length ch"
proof -
  let ?n = "n_cols win"
  let ?hop = "?n - n_overlap ?n"
  let ?P = "process (\<lambda>chunk. mt_remove d chunk sfreq lf nw win thr g)"
  let ?st0 = "\<lparr>x_out = map (\<lambda>_. 0) ch, rm_freqs = [], idx = 0\<rparr>"
  have hop': "0 < ?hop \<or> length ch \<le> 0 + ?n"
    using hop unfolding n_overlap_def by auto
  have PP: "length out = length chunk \<and> idx s' = idx s \<and> length (x_out s') = length (x_out s)"
    if "?P chunk s = Inr (out, s')" for chunk s out s'
    by (rule process_keeps_cursor[OF _ that]) (rule mt_remove_length)
  have PT: "\<exists>out s'. ?P chunk s = Inr (out, s')" if "chunk \<noteq> []" for chunk s
  proof -
    from that gn[of "length chunk"] obtain w t where "g (Some (length chunk)) = Inr (w, t)"
      by auto
    then show ?thesis
      by (simp add: process_def mt_remove_def chunk_tapers_def)
  qed
  have "\<exists>st'. cola_loop ?P store ?n ?hop ch (cola_starts (length ch) ?n ?hop 0) [] ?st0 = Inr st'"
    by (rule cola_loop_returns[OF PP PT]) (use ne hop' in simp_all)
  then obtain st' where
    l: "cola_loop ?P store ?n ?hop ch (cola_starts (length ch) ?n ?hop 0) [] ?st0 = Inr st'"
    by blast
  have f: "mt_remove_win_feed d ch sfreq lf nw g = Inr st'"
    using g0 l hop' by (auto simp: mt_remove_win_feed_def cola_feed_def Let_def)
  from mt_remove_win_feed_cursor[OF f] f show ?thesis
    by (simp add: mt_remove_win_def)
qed


subsection \<open>Arrays and the channel loop\<close>

lemma prod_list_atleast_2d:
  "prod_list (butlast (np_atleast_2d_shape sh)) * last (np_atleast_2d_shape sh) = prod_list sh"
proof (cases sh rule: rev_cases)
  case Nil
  then show ?thesis by (simp add: np_atleast_2d_shape_def)
next
  case (snoc ys y)
  then show ?thesis by (cases ys) (simp_all add: np_atleast_2d_shape_def)
qed

lemma prep_for_filtering_result:
  assumes "prep_for_filtering d x picks = Inr (x2, orig_shape, picks2)"
  shows "orig_shape = shape x \<and> flat x2 = flat x
         \<and> shape x2 = [prod_list (butlast (np_atleast_2d_shape (shape x))),
                        last (np_atleast_2d_shape (shape x))]
         \<and> list_all (\<lambda>pick. 0 \<le> pick \<and> pick < int (hd (shape x2))) picks2"
  using assms
  by (auto simp: prep_for_filtering_def Let_def split: sum.splits if_splits)

lemma length_array_rows: "length (array_rows a) = hd (shape a)"
  by (simp add: array_rows_def)

lemma sum_list_const_len:
  "(\<And>r. r \<in> set rows \<Longrightarrow> length r = c) \<Longrightarrow> sum_list (map length rows) = length rows * c"
  by (induction rows) auto

lemma array_rows_row_length:
  assumes "shape a = [r, c]" and "length (flat a) = r * c" and "i < r"
  shows "length (array_rows a ! i) = c"
proof -
  have "Suc i * c \<le> r * c" using assms(3) by (intro mult_le_mono1) simp
  then have "i * c + c \<le> length (flat a)" using assms(2) by simp
  then show ?thesis using assms by (simp add: array_rows_def)
qed

lemma take_drop_concat:
  assumes "\<And>r. r \<in> set rows \<Longrightarrow> length r = c" and "i < length rows"
  shows "take c (drop (i * c) (concat rows)) = rows ! i"
  using assms
proof (induction rows arbitrary: i)
  case Nil
  then show ?case by simp
next
  case (Cons r rows)
  show ?case
  proof (cases i)
    case 0
    then show ?thesis using Cons.prems by simp
  next
    case (Suc j)
    then show ?thesis using Cons.prems Cons.IH[of j] by simp
  qed
qed

lemma concat_array_rows:
  assumes "shape a = [r, c]" and "length (flat a) = r * c"
  shows "concat (array_rows a) = flat a"
proof -
  have "concat (map (\<lambda>i. take c (drop (i * c) xs)) [0..<r]) = xs" if "length xs = r * c" for xs
    using that
  proof (induction r arbitrary: xs)
    case 0
    then show ?case by simp
  next
    case (Suc r)
    have "concat (map (\<lambda>i. take c (drop (i * c) xs)) [0..<Suc r])
            = concat (map (\<lambda>i. take c (drop (i * c) xs)) [0..<r]) @ take c (drop (r * c) xs)"
      by simp
    also have "concat (map (\<lambda>i. take c (drop (i * c) xs)) [0..<r])
                 = concat (map (\<lambda>i. take c (drop (i * c) (take (r * c) xs))) [0..<r])"
    proof -
      have "take c (drop (i * c) xs) = take c (drop (i * c) (take (r * c) xs))" if "i < r" for i
      proof -
        have "Suc i * c \<le> r * c" using that by (intro mult_le_mono1) simp
        then have "i * c + c \<le> r * c" by simp
        then show ?thesis by (simp add: drop_take min_def)
      qed
      then show ?thesis by (intro arg_cong[where f = concat] map_cong) auto
    qed
    also have "\<dots> = take (r * c) xs"
      using Suc.prems by (intro Suc.IH) simp
    also have "take (r * c) xs @ take c (drop (r * c) xs) = xs"
      using Suc.prems by (simp add: take_add[symmetric])
    finally show ?case .
  qed
  then show ?thesis using assms by (simp add: array_rows_def)
qed

lemma channel_loop_frame:
  assumes W: "\<And>r out f. win r = Inr (out, f) \<Longrightarrow> length out = length r"
  shows "channel_loop win picks iis rows fl = Inr (rows', fl') \<Longrightarrow>
         length rows' = length rows
         \<and> map length rows' = map length rows
         \<and> (\<forall>i < length rows. int i \<notin> set picks \<or> i \<notin> set iis \<longrightarrow> rows' ! i = rows ! i)"
proof (induction iis arbitrary: rows fl)
  case Nil
  then show ?case by simp
next
  case (Cons ii iis)
  show ?case
  proof (cases "int ii \<in> set picks")
    case False
    with Cons.prems have "channel_loop win picks iis rows fl = Inr (rows', fl')" by simp
    from Cons.IH[OF this] show ?thesis using False by auto
  next
    case True
    with Cons.prems obtain row f where
      w: "win (rows ! ii) = Inr (row, f)" and
      l: "channel_loop win picks iis (rows[ii := row]) (fl @ [f]) = Inr (rows', fl')"
      by (auto split: sum.splits)
    have len: "map length (rows[ii := row]) = map length rows"
    proof (cases "ii < length rows")
      case True
      then show ?thesis using W[OF w] by (simp add: map_update list_update_same_conv)
    next
      case False
      then have "rows[ii := row] = rows" by (intro list_update_beyond) simp
      then show ?thesis by simp
    qed
    from Cons.IH[OF l] have ih: "length rows' = length rows" "map length rows' = map length rows"
      "\<And>i. i < length rows \<Longrightarrow> int i \<notin> set picks \<or> i \<notin> set iis \<Longrightarrow>
         rows' ! i = rows[ii := row] ! i"
      using len by simp_all
    have "rows' ! i = rows ! i"
      if "i < length rows" and "int i \<notin> set picks \<or> i \<notin> set (ii # iis)" for i
    proof -
      from that(2) True have "i \<noteq> ii" by auto
      moreover from that(2) have "int i \<notin> set picks \<or> i \<notin> set iis" by auto
      ultimately show ?thesis using ih(3)[OF that(1)] by simp
    qed
    then show ?thesis using ih(1,2) by blast
  qed
qed

lemma prep_rows:
  assumes wf: "length (flat x) = prod_list (shape x)"
    and p: "prep_for_filtering d x picks = Inr (x2, orig_shape, picks2)"
  shows "\<exists>r c. shape x2 = [r, c] \<and> length (flat x2) = r * c \<and> flat x2 = flat x
           \<and> orig_shape = shape x"
  using prep_for_filtering_result[OF p] wf prod_list_atleast_2d[of "shape x"] by simp

lemma rows_of_prep:
  assumes "shape x2 = [r, c]" and "length (flat x2) = r * c"
  shows "length (array_rows x2) = r" and "\<And>row. row \<in> set (array_rows x2) \<Longrightarrow> length row = c"
proof -
  show "length (array_rows x2) = r" using assms by (simp add: length_array_rows)
  fix row assume "row \<in> set (array_rows x2)"
  then obtain i where "i < r" "row = array_rows x2 ! i"
    using assms(1) by (auto simp: in_set_conv_nth length_array_rows)
  then show "length row = c" using array_rows_row_length[OF assms] by simp
qed

lemma length_concat_same:
  "map length rows' = map length rows \<Longrightarrow> length (concat rows') = length (concat rows)"
  by (simp add: length_concat)

lemma mt_spectrum_proc_shape:
  assumes wf: "length (flat x) = prod_list (shape x)"
    and m: "mt_spectrum_proc d x sfreq lf nw picks g = Inr (y, rep)"
  shows "shape y = shape x \<and> length (flat y) = prod_list (shape y)"
proof -
  from m obtain x2 orig_shape picks2 rows fl where
    p: "prep_for_filtering d x picks = Inr (x2, orig_shape, picks2)" and
    l: "channel_loop (\<lambda>row. mt_remove_win d row sfreq lf nw g) picks2 [0..<hd (shape x2)]
          (array_rows x2) [] = Inr (rows, fl)" and
    y: "y = \<lparr>shape = orig_shape, flat = concat rows\<rparr>"
    by (auto simp: mt_spectrum_proc_def split: sum.splits)
  from prep_rows[OF wf p] obtain r c where
    x2: "shape x2 = [r, c]" "length (flat x2) = r * c" "flat x2 = flat x" "orig_shape = shape x"
    by blast
  from channel_loop_frame[OF _ l] have "map length rows = map length (array_rows x2)"
    using mt_remove_win_length by blast
  then have "length (concat rows) = length (concat (array_rows x2))"
    by (rule length_concat_same)
  also have "\<dots> = length (flat x)"
    using concat_array_rows[OF x2(1,2)] x2(3) by simp
  finally show ?thesis using y x2(4) wf by simp
qed

lemma proc_array_lengths:
  assumes F: "\<And>r out l. func r = Inr (out, l) \<Longrightarrow> length out = length r"
  shows "proc_array func rows = Inr (outs, ls) \<Longrightarrow> map length outs = map length rows"
proof (induction rows arbitrary: outs ls)
  case Nil
  then show ?case by simp
next
  case (Cons row rows)
  from Cons.prems obtain out l outs' ls' where
    a: "func row = Inr (out, l)" and b: "proc_array func rows = Inr (outs', ls')" and
    c: "outs = out # outs'"
    by (auto split: sum.splits)
  from Cons.IH[OF b] F[OF a] c show ?case by simp
qed

lemma ieeg_mt_spectrum_proc_shape:
  assumes wf: "length (flat x) = prod_list (shape x)"
    and m: "ieeg_mt_spectrum_proc d x (WindowingRemover_call d self) picks = Inr (y, reps)"
  shows "shape y = shape x \<and> length (flat y) = prod_list (shape y)"
proof -
  from m obtain x2 orig_shape picks2 rows where
    p: "prep_for_filtering d x picks = Inr (x2, orig_shape, picks2)" and
    l: "proc_array (WindowingRemover_call d self) (array_rows x2) = Inr (rows, reps)" and
    y: "y = \<lparr>shape = orig_shape, flat = concat rows\<rparr>"
    by (auto simp: ieeg_mt_spectrum_proc_def split: sum.splits)
  from prep_rows[OF wf p] obtain r c where
    x2: "shape x2 = [r, c]" "length (flat x2) = r * c" "flat x2 = flat x" "orig_shape = shape x"
    by blast
  from proc_array_lengths[OF _ l] have "map length rows = map length (array_rows x2)"
    using WindowingRemover_call_length by blast
  then have "length (concat rows) = length (concat (array_rows x2))"
    by (rule length_concat_same)
  also have "\<dots> = length (flat x)"
    using concat_array_rows[OF x2(1,2)] x2(3) by simp
  finally show ?thesis using y x2(4) wf by simp
qed


subsection \<open>Runs in the example environment\<close>

lemmas run_defs =
  example_deps_def get_window_thresh_def get_thresh_def ieeg_line_filter_process_def
  WindowingRemover_init_def cola_feed_def cola_starts.simps n_overlap_def process_def store_def
  mt_remove_def ieeg_mt_remove_def chunk_tapers_def ieeg_chunk_tapers_def mt_remove_fit_def
  find_indices_def np_sum_axis0_def np_angle_def arctan2_def Let_def crossfade_def

lemma upt_0_2: "[0..<2] = [0, 1]"
  by (simp add: numeral_2_eq_2)

lemma ex_rows: "array_rows \<lparr>shape = [2, 2], flat = [1, 2, 3, 4]\<rparr> = [[1, 2], [3, 4]]"
  by (simp add: array_rows_def upt_0_2)

lemma ex_feed:
  "mt_remove_win_feed example_deps [1, 2, 3, 4, 5] 4 None None
     (get_window_thresh example_deps 4 None True True (1 / 20) 4)
   = Inr \<lparr>x_out = [0, 1, 2, 3, 4], rm_freqs = [[0], [0]], idx = 5\<rparr>"
  by (simp add: mt_remove_win_feed_def run_defs upt_rec[of 0] upt_rec[of 1] upt_rec[of 2] upt_rec[of 3] upt_rec[of 4])

lemma ex_win:
  "mt_remove_win example_deps [a, b] 4 None None
     (get_window_thresh example_deps 4 None True True (1 / 20) 2)
   = Inr ([a - 1, b - 1], [[0]])"
  by (simp add: mt_remove_win_def mt_remove_win_feed_def run_defs upt_0_2)

lemma ex_call:
  "WindowingRemover_call example_deps
        (ieeg_line_filter_process 4 None None 2 True True (1 / 20) (Some 1)) [a, b]
   = Inr ([a - 1, b - 1], \<lparr>kind = ''Detected'', found_freqs = [(0, 1)]\<rparr>)"
  by (simp add: WindowingRemover_call_def WindowingRemover_feed_def run_defs upt_0_2
      make_report_def ieeg_count_freqs_def Counter_def counts_get_def np_unique_def np_round_def)

lemma ex_prep:
  "prep_for_filtering example_deps \<lparr>shape = [2, 2], flat = [1, 2, 3, 4]\<rparr> (Some [0])
     = Inr (\<lparr>shape = [2, 2], flat = [1, 2, 3, 4]\<rparr>, [2, 2], [0])"
  by (simp add: prep_for_filtering_def np_atleast_2d_shape_def example_deps_def Let_def)

lemma ex_proc:
  "mt_spectrum_proc example_deps \<lparr>shape = [2, 2], flat = [1, 2, 3, 4]\<rparr> 4 None None (Some [0])
     (get_window_thresh example_deps 4 None True True (1 / 20) 2)
   = Inr (\<lparr>shape = [2, 2], flat = [0, 1, 3, 4]\<rparr>, \<lparr>kind = ''Detected'', found_freqs = [(0, 1)]\<rparr>)"
  by (simp add: mt_spectrum_proc_def ex_prep ex_rows ex_win upt_0_2
      make_report_def count_freqs_def Counter_def counts_get_def np_unique_def np_round_def)

lemma ex_ieeg_proc:
  "ieeg_mt_spectrum_proc example_deps \<lparr>shape = [2, 2], flat = [1, 2, 3, 4]\<rparr>
     (WindowingRemover_call example_deps
        (ieeg_line_filter_process 4 None None 2 True True (1 / 20) (Some 1)))
     (Some [0])
   = Inr (\<lparr>shape = [2, 2], flat = [0, 1, 2, 3]\<rparr>,
          [\<lparr>kind = ''Detected'', found_freqs = [(0, 1)]\<rparr>,
           \<lparr>kind = ''Detected'', found_freqs = [(0, 1)]\<rparr>])"
  by (simp add: ieeg_mt_spectrum_proc_def ex_prep ex_rows ex_call)

text \<open>Three dimensions: two epochs of one channel; the pick 0 expands to the rows 0 and 1.\<close>

lemma ex_prep_epochs:
  "prep_for_filtering example_deps \<lparr>shape = [2, 1, 2], flat = [1, 2, 3, 4]\<rparr> (Some [0])
     = Inr (\<lparr>shape = [2, 2], flat = [1, 2, 3, 4]\<rparr>, [2, 1, 2], [0, 1])"
  by (simp add: prep_for_filtering_def np_atleast_2d_shape_def example_deps_def Let_def
      np_arange_def np_tile_def np_repeat_def upt_0_2 numeral_2_eq_2)

lemma ex_proc_epochs:
  "mt_spectrum_proc example_deps \<lparr>shape = [2, 1, 2], flat = [1, 2, 3, 4]\<rparr> 4 None None (Some [0])
     (get_window_thresh example_deps 4 None True True (1 / 20) 2)
   = Inr (\<lparr>shape = [2, 1, 2], flat = [0, 1, 2, 3]\<rparr>,
          \<lparr>kind = ''Detected'', found_freqs = [(0, 2)]\<rparr>)"
  unfolding mt_spectrum_proc_def ex_prep_epochs
  by (simp add: ex_rows ex_win upt_0_2
      make_report_def count_freqs_def Counter_def counts_get_def np_unique_def np_round_def)

text \<open>
  \<^verbatim>\<open>mt_filter.py\<close> on a channel of 5 samples with a window of 4: the second chunk has 3
  samples, and the call raises AttributeError (\<^verbatim>\<open>filter.py\<close> on the same channel is
  \<open>ex_feed\<close>).
\<close>

lemma ex_ieeg_short_final_chunk:
  "WindowingRemover_call example_deps
     (ieeg_line_filter_process 4 None None 4 True True (1 / 20) (Some 1)) [1, 2, 3, 4, 5]
   = Inl AttributeError"
  by (simp add: WindowingRemover_call_def WindowingRemover_feed_def run_defs
      upt_rec[of 0] upt_rec[of 1] upt_rec[of 2] upt_rec[of 3] upt_rec[of 4])

lemma ex_ieeg_feed:
  "WindowingRemover_feed example_deps
        (ieeg_line_filter_process 4 None None 2 True True (1 / 20) (Some 1)) [a, b]
   = Inr \<lparr>x_out = [a - 1, b - 1], rm_freqs = [[0]], idx = 2\<rparr>"
  by (simp add: WindowingRemover_feed_def run_defs upt_0_2)


subsection \<open>C9: shape of the output and the write cursor\<close>

text \<open>
  C9: whenever the overlap-add run of a channel finishes, in either file, the write cursor
  \<open>idx[0]\<close> equals the channel length (the assertion that follows holds) and \<open>x_out\<close> has
  the channel's length; and whenever \<open>mt_spectrum_proc\<close> returns for a buffer whose data
  fill its shape, the output has the shape of the input on every axis and its data fill
  that shape.
\<close>

theorem shape_and_cursor:
  "(mt_remove_win_feed d ch sfreq lf nw g = Inr st
      \<longrightarrow> idx st = length ch \<and> length (x_out st) = length ch)
   \<and> (WindowingRemover_feed d self ch = Inr st'
      \<longrightarrow> idx st' = length ch \<and> length (x_out st') = length ch)
   \<and> (length (flat x) = prod_list (shape x)
        \<and> mt_spectrum_proc d x sfreq lf nw picks g = Inr (y, rep)
      \<longrightarrow> shape y = shape x \<and> length (flat y) = prod_list (shape y))
   \<and> (length (flat x) = prod_list (shape x)
        \<and> ieeg_mt_spectrum_proc d x (WindowingRemover_call d self) picks = Inr (y', reps)
      \<longrightarrow> shape y' = shape x \<and> length (flat y') = prod_list (shape y'))"
proof -
  have a: "mt_remove_win_feed d ch sfreq lf nw g = Inr st
             \<longrightarrow> idx st = length ch \<and> length (x_out st) = length ch"
    by (rule impI) (rule mt_remove_win_feed_cursor)
  have b: "WindowingRemover_feed d self ch = Inr st'
             \<longrightarrow> idx st' = length ch \<and> length (x_out st') = length ch"
    by (rule impI) (rule WindowingRemover_feed_cursor)
  have c: "length (flat x) = prod_list (shape x)
             \<and> mt_spectrum_proc d x sfreq lf nw picks g = Inr (y, rep)
           \<longrightarrow> shape y = shape x \<and> length (flat y) = prod_list (shape y)"
    by (rule impI, erule conjE) (rule mt_spectrum_proc_shape)
  have e: "length (flat x) = prod_list (shape x)
             \<and> ieeg_mt_spectrum_proc d x (WindowingRemover_call d self) picks = Inr (y', reps)
           \<longrightarrow> shape y' = shape x \<and> length (flat y') = prod_list (shape y')"
    by (rule impI, erule conjE) (rule ieeg_mt_spectrum_proc_shape)
  show ?thesis by (rule conjI[OF a conjI[OF b conjI[OF c e]]])
qed

text \<open>
  A channel of 5 samples with a window of 4 (two chunks, the second of 3 samples), a
  channel of 2 samples with a window of 2, a buffer of 2 channels by 2 samples, and a
  buffer of 2 epochs by 1 channel by 2 samples.
\<close>

theorem shape_and_cursor_witness:
  "(\<exists>st. mt_remove_win_feed example_deps [1, 2, 3, 4, 5] 4 None None
            (get_window_thresh example_deps 4 None True True (1 / 20) 4) = Inr st
         \<and> idx st = 5 \<and> length (x_out st) = 5)
   \<and> (\<exists>st. WindowingRemover_feed example_deps
            (ieeg_line_filter_process 4 None None 2 True True (1 / 20) (Some 1)) [1, 2] = Inr st
         \<and> idx st = 2 \<and> length (x_out st) = 2)
   \<and> (\<exists>y rep. mt_spectrum_proc example_deps \<lparr>shape = [2, 2], flat = [1, 2, 3, 4]\<rparr> 4 None None
            (Some [0]) (get_window_thresh example_deps 4 None True True (1 / 20) 2) = Inr (y, rep)
         \<and> shape y = [2, 2] \<and> length (flat y) = 4)
   \<and> (\<exists>y reps. ieeg_mt_spectrum_proc example_deps \<lparr>shape = [2, 2], flat = [1, 2, 3, 4]\<rparr>
            (WindowingRemover_call example_deps
               (ieeg_line_filter_process 4 None None 2 True True (1 / 20) (Some 1)))
            (Some [0]) = Inr (y, reps)
         \<and> shape y = [2, 2] \<and> length (flat y) = 4)
   \<and> (\<exists>y rep. mt_spectrum_proc example_deps \<lparr>shape = [2, 1, 2], flat = [1, 2, 3, 4]\<rparr> 4 None
            None (Some [0]) (get_window_thresh example_deps 4 None True True (1 / 20) 2)
              = Inr (y, rep)
         \<and> shape y = [2, 1, 2] \<and> length (flat y) = 4)"
proof -
  let ?g4 = "get_window_thresh example_deps 4 None True True (1 / 20) 4"
  let ?g2 = "get_window_thresh example_deps 4 None True True (1 / 20) 2"
  let ?self = "ieeg_line_filter_process 4 None None 2 True True (1 / 20) (Some 1)"
  let ?x = "\<lparr>shape = [2, 2], flat = [1, 2, 3, 4]\<rparr>"
  obtain st where st: "mt_remove_win_feed example_deps [1, 2, 3, 4, 5] 4 None None ?g4 = Inr st"
    using ex_feed by blast
  obtain st' where st': "WindowingRemover_feed example_deps ?self [1, 2] = Inr st'"
    using ex_ieeg_feed by blast
  obtain y rep where y: "mt_spectrum_proc example_deps ?x 4 None None (Some [0]) ?g2 = Inr (y, rep)"
    using ex_proc by blast
  obtain y' reps where
    y': "ieeg_mt_spectrum_proc example_deps ?x (WindowingRemover_call example_deps ?self)
           (Some [0]) = Inr (y', reps)"
    using ex_ieeg_proc by blast
  have wf: "length (flat ?x) = prod_list (shape ?x)" by simp
  from shape_and_cursor[of example_deps "[1, 2, 3, 4, 5]" 4 None None ?g4 st ?self st' ?x
      "Some [0]" y rep y' reps] st
  have a: "idx st = 5 \<and> length (x_out st) = 5" by simp
  from shape_and_cursor[of example_deps "[1, 2]" 4 None None ?g2 st ?self st' ?x
      "Some [0]" y rep y' reps] st' y y' wf
  have b: "idx st' = 2 \<and> length (x_out st') = 2"
    and c: "shape y = [2, 2] \<and> length (flat y) = 4"
    and e: "shape y' = [2, 2] \<and> length (flat y') = 4"
    by simp_all
  let ?x3 = "\<lparr>shape = [2, 1, 2], flat = [1, 2, 3, 4]\<rparr>"
  obtain y3 rep3 where
    y3: "mt_spectrum_proc example_deps ?x3 4 None None (Some [0]) ?g2 = Inr (y3, rep3)"
    using ex_proc_epochs by blast
  have wf3: "length (flat ?x3) = prod_list (shape ?x3)" by simp
  from shape_and_cursor[of example_deps "[1, 2]" 4 None None ?g2 st ?self st' ?x3
      "Some [0]" y3 rep3 y' reps] y3 wf3
  have f: "shape y3 = [2, 1, 2] \<and> length (flat y3) = 4"
    by simp
  show ?thesis using st st' y y' y3 a b c e f by blast
qed


subsection \<open>C6: channels that are not picked\<close>

text \<open>
  In \<^verbatim>\<open>filter.py\<close> the rows whose number is not among the expanded picks come back as they
  went in.
\<close>

lemma mt_spectrum_proc_frame:
  assumes wf: "length (flat x) = prod_list (shape x)"
    and p: "prep_for_filtering d x picks = Inr (x2, orig_shape, picks2)"
    and m: "mt_spectrum_proc d x sfreq lf nw picks g = Inr (y, rep)"
    and i: "i < hd (shape x2)" "int i \<notin> set picks2"
  shows "array_rows (y\<lparr>shape := shape x2\<rparr>) ! i = array_rows x2 ! i"
proof -
  from m p obtain rows fl where
    l: "channel_loop (\<lambda>row. mt_remove_win d row sfreq lf nw g) picks2 [0..<hd (shape x2)]
          (array_rows x2) [] = Inr (rows, fl)" and
    y: "y = \<lparr>shape = orig_shape, flat = concat rows\<rparr>"
    by (auto simp: mt_spectrum_proc_def split: sum.splits)
  from prep_rows[OF wf p] obtain r c where
    x2: "shape x2 = [r, c]" "length (flat x2) = r * c"
    by blast
  note rs = rows_of_prep[OF x2]
  from channel_loop_frame[OF _ l] have
    f: "length rows = r" "map length rows = map length (array_rows x2)"
       "rows ! i = array_rows x2 ! i"
    using mt_remove_win_length i rs(1) x2(1) by (blast, blast, fastforce)
  have "length row = c" if "row \<in> set rows" for row
  proof -
    from that obtain j where j: "j < r" "row = rows ! j"
      using f(1) by (auto simp: in_set_conv_nth)
    have "length (rows ! j) = map length rows ! j" using j f(1) by simp
    also have "\<dots> = length (array_rows x2 ! j)" using j rs(1) by (simp add: f(2))
    also have "\<dots> = c" using rs(2) j rs(1) by simp
    finally show ?thesis using j by simp
  qed
  then have "take c (drop (i * c) (concat rows)) = rows ! i"
    using i x2(1) f(1) by (intro take_drop_concat) simp_all
  then show ?thesis using i x2(1) y f(3) by (simp add: array_rows_def)
qed

text \<open>
  In \<^verbatim>\<open>mt_filter.py\<close> the picks only decide whether \<open>_prep_for_filtering\<close> raises: two pick
  lists that both pass give the same output.
\<close>

lemma ieeg_picks_ignored:
  assumes "prep_for_filtering d x picks = Inr (x2, s2, p2)"
    and "prep_for_filtering d x picks' = Inr (x2', s2', p2')"
  shows "ieeg_mt_spectrum_proc d x func picks = ieeg_mt_spectrum_proc d x func picks'"
proof -
  from prep_for_filtering_result[OF assms(1)] prep_for_filtering_result[OF assms(2)]
  have "x2' = x2" "s2' = s2" by (cases x2; cases x2'; simp)+
  then show ?thesis using assms by (simp add: ieeg_mt_spectrum_proc_def)
qed


text \<open>
  C6 in \<^verbatim>\<open>mt_filter.py\<close>: two channels \<open>[1, 2]\<close> and \<open>[3, 4]\<close> with \<open>picks = [0]\<close>. The
  channel 1 is not picked, yet it comes back filtered, as \<open>[2, 3]\<close>; \<^verbatim>\<open>filter.py\<close> on the
  same input leaves it \<open>[3, 4]\<close>.
\<close>

theorem ieeg_unpicked_channel_is_filtered:
  "ieeg_mt_spectrum_proc example_deps \<lparr>shape = [2, 2], flat = [1, 2, 3, 4]\<rparr>
     (WindowingRemover_call example_deps
        (ieeg_line_filter_process 4 None None 2 True True (1 / 20) (Some 1)))
     (Some [0])
   = Inr (\<lparr>shape = [2, 2], flat = [0, 1, 2, 3]\<rparr>,
          [\<lparr>kind = ''Detected'', found_freqs = [(0, 1)]\<rparr>,
           \<lparr>kind = ''Detected'', found_freqs = [(0, 1)]\<rparr>])
   \<and> mt_spectrum_proc example_deps \<lparr>shape = [2, 2], flat = [1, 2, 3, 4]\<rparr> 4 None None (Some [0])
       (get_window_thresh example_deps 4 None True True (1 / 20) 2)
     = Inr (\<lparr>shape = [2, 2], flat = [0, 1, 3, 4]\<rparr>,
            \<lparr>kind = ''Detected'', found_freqs = [(0, 1)]\<rparr>)"
  by (simp add: ex_ieeg_proc ex_proc)


subsection \<open>C7: validation of the notch widths\<close>

text \<open>
  C7, the claim as stated fails: a one-element array of widths with two target
  frequencies has a length that differs from the number of targets, yet nothing is raised;
  the width is broadcast.
\<close>

theorem one_element_width_array_is_broadcast:
  "check_notch_widths (Some (PyList [PyInt 60, PyInt 120])) (Some (NdArray (FloatArray [10])))
     = Inr (Some (IntArray [60, 120]), Some (NdArray (FloatArray [10, 10])))"
  by (simp add: check_notch_widths_def)


lemma check_fails_line_filter:
  assumes "check_notch_widths freqs nws = Inl e"
  shows "line_filter d raw fs freqs fl nws bw p picks ad lb = Inl e"
    and "ieeg_line_filter d raw fs freqs fl nws bw p picks ad lb = Inl e"
  using assms by (simp_all add: line_filter_def ieeg_line_filter_def Let_def)


text \<open>
  C7, amended: when target frequencies are given, the widths are validated before any
  channel is processed. A single non-negative number, or an array of one non-negative
  element, is broadcast across all targets; an array without negative entries whose length
  is the number of targets is kept; one whose length is neither 1 nor the number of targets
  raises ValueError; a negative number or an array with a negative entry raises ValueError.
  When the validation raises, \<open>line_filter\<close> of either file raises that error and
  returns no data, whatever the processing would have done.
\<close>

theorem notch_width_validation:
  "(\<not> to_real s < 0 \<longrightarrow>
      (\<exists>w. check_notch_widths (Some fr) (Some (Scalar s))
              = Inr (Some (np_atleast_1d fr), Some (NdArray w))
          \<and> arr_reals w = replicate (arr_len (np_atleast_1d fr)) (to_real s)))
   \<and> (\<not> list_ex (\<lambda>v. v < 0) (arr_reals a) \<and> arr_len a = 1 \<longrightarrow>
      (\<exists>w. check_notch_widths (Some fr) (Some (NdArray a))
              = Inr (Some (np_atleast_1d fr), Some (NdArray w))
          \<and> arr_reals w = replicate (arr_len (np_atleast_1d fr)) (hd (arr_reals a))))
   \<and> (\<not> list_ex (\<lambda>v. v < 0) (arr_reals a) \<and> arr_len a = arr_len (np_atleast_1d fr)
        \<and> arr_len a \<noteq> 1 \<longrightarrow>
      check_notch_widths (Some fr) (Some (NdArray a))
        = Inr (Some (np_atleast_1d fr), Some (NdArray a)))
   \<and> (\<not> list_ex (\<lambda>v. v < 0) (arr_reals a) \<and> arr_len a \<noteq> 1
        \<and> arr_len a \<noteq> arr_len (np_atleast_1d fr) \<longrightarrow>
      check_notch_widths (Some fr) (Some (NdArray a)) = Inl ValueError)
   \<and> (\<not> isinstance_list_tuple nw \<and> list_ex (\<lambda>v. v < 0) (listnum_reals nw) \<longrightarrow>
      check_notch_widths (Some fr) (Some nw) = Inl ValueError)
   \<and> (check_notch_widths freqs nws = Inl e \<longrightarrow>
      line_filter d raw fs freqs fl nws bw p picks ad lb = Inl e
      \<and> ieeg_line_filter d raw fs freqs fl nws bw p picks ad lb = Inl e)"
proof -
  have s1: "arr_len (np_atleast_1d (Scalar s)) = 1" by (cases s) simp_all
  have s2: "hd (arr_items (np_atleast_1d (Scalar s))) = s" by (cases s) simp_all
  have c1: "\<not> to_real s < 0 \<longrightarrow>
      (\<exists>w. check_notch_widths (Some fr) (Some (Scalar s))
              = Inr (Some (np_atleast_1d fr), Some (NdArray w))
          \<and> arr_reals w = replicate (arr_len (np_atleast_1d fr)) (to_real s))"
    by (simp add: check_notch_widths_def Let_def s1 s2 np_scalar_mul_ones_reals)
  have hd_items: "to_real (hd (arr_items a)) = hd (arr_reals a)" if "arr_len a = 1"
    using that by (cases a) (auto simp: length_Suc_conv)
  have c2: "\<not> list_ex (\<lambda>v. v < 0) (arr_reals a) \<and> arr_len a = 1 \<longrightarrow>
      (\<exists>w. check_notch_widths (Some fr) (Some (NdArray a))
              = Inr (Some (np_atleast_1d fr), Some (NdArray w))
          \<and> arr_reals w = replicate (arr_len (np_atleast_1d fr)) (hd (arr_reals a)))"
    by (simp add: check_notch_widths_def Let_def np_scalar_mul_ones_reals hd_items)
  have c3: "\<not> list_ex (\<lambda>v. v < 0) (arr_reals a) \<and> arr_len a = arr_len (np_atleast_1d fr)
        \<and> arr_len a \<noteq> 1 \<longrightarrow>
      check_notch_widths (Some fr) (Some (NdArray a))
        = Inr (Some (np_atleast_1d fr), Some (NdArray a))"
    by (simp add: check_notch_widths_def Let_def)
  have c4: "\<not> list_ex (\<lambda>v. v < 0) (arr_reals a) \<and> arr_len a \<noteq> 1
        \<and> arr_len a \<noteq> arr_len (np_atleast_1d fr) \<longrightarrow>
      check_notch_widths (Some fr) (Some (NdArray a)) = Inl ValueError"
    by (simp add: check_notch_widths_def Let_def)
  have c5: "\<not> isinstance_list_tuple nw \<and> list_ex (\<lambda>v. v < 0) (listnum_reals nw) \<longrightarrow>
      check_notch_widths (Some fr) (Some nw) = Inl ValueError"
    by (cases nw) (simp_all add: check_notch_widths_def Let_def)
  have c6: "check_notch_widths freqs nws = Inl e \<longrightarrow>
      line_filter d raw fs freqs fl nws bw p picks ad lb = Inl e
      \<and> ieeg_line_filter d raw fs freqs fl nws bw p picks ad lb = Inl e"
    by (simp add: check_fails_line_filter)
  show ?thesis
    by (rule conjI[OF c1 conjI[OF c2 conjI[OF c3 conjI[OF c4 conjI[OF c5 c6]]]]])
qed


text \<open>
  Targets \<open>[60, 120]\<close>: the widths \<open>10\<close> and \<open>[10.]\<close> are broadcast; \<open>[10., 20.]\<close> is
  kept; \<open>[10., 20., 30.]\<close> and
  \<open>[10., -1.]\<close> raise ValueError, and so does \<open>line_filter\<close> of either file on the former.
\<close>

theorem notch_width_validation_witness:
  "(\<exists>w. check_notch_widths (Some (PyList [PyInt 60, PyInt 120])) (Some (Scalar (PyInt 10)))
              = Inr (Some (IntArray [60, 120]), Some (NdArray w))
          \<and> arr_reals w = [10, 10])
   \<and> (\<exists>w. check_notch_widths (Some (PyList [PyInt 60, PyInt 120])) (Some (NdArray (FloatArray [10])))
              = Inr (Some (IntArray [60, 120]), Some (NdArray w))
          \<and> arr_reals w = [10, 10])
   \<and> check_notch_widths (Some (PyList [PyInt 60, PyInt 120])) (Some (NdArray (FloatArray [10, 20])))
        = Inr (Some (IntArray [60, 120]), Some (NdArray (FloatArray [10, 20])))
   \<and> check_notch_widths (Some (PyList [PyInt 60, PyInt 120])) (Some (NdArray (FloatArray [10, 20, 30])))
        = Inl ValueError
   \<and> check_notch_widths (Some (PyList [PyInt 60, PyInt 120])) (Some (NdArray (FloatArray [10, - 1])))
        = Inl ValueError
   \<and> line_filter example_deps example_raw None (Some (PyList [PyInt 60, PyInt 120])) None
        (Some (NdArray (FloatArray [10, 20, 30]))) None (1 / 20) None True True = Inl ValueError
   \<and> ieeg_line_filter example_deps example_raw None (Some (PyList [PyInt 60, PyInt 120])) None
        (Some (NdArray (FloatArray [10, 20, 30]))) None (1 / 20) None True True = Inl ValueError"
  using
    notch_width_validation[of "PyInt 10" "PyList [PyInt 60, PyInt 120]" "FloatArray [10]"
      "NdArray (FloatArray [10, - 1])" "Some (PyList [PyInt 60, PyInt 120])"
      "Some (NdArray (FloatArray [10, 20, 30]))" ValueError example_deps example_raw None None
      None "1 / 20" None True True]
    notch_width_validation[of "PyInt 10" "PyList [PyInt 60, PyInt 120]" "FloatArray [10, 20, 30]"
      "NdArray (FloatArray [10, - 1])" "Some (PyList [PyInt 60, PyInt 120])"
      "Some (NdArray (FloatArray [10, 20, 30]))" ValueError example_deps example_raw None None
      None "1 / 20" None True True]
    notch_width_validation[of "PyInt 10" "PyList [PyInt 60, PyInt 120]" "FloatArray [10, 20]"
      "NdArray (FloatArray [10, - 1])" "Some (PyList [PyInt 60, PyInt 120])"
      "Some (NdArray (FloatArray [10, 20, 30]))" ValueError example_deps example_raw None None
      None "1 / 20" None True True]
  by (simp add: numeral_2_eq_2)

subsection \<open>C5: the report\<close>

text \<open>
  In \<^verbatim>\<open>filter.py\<close> the report has one row per 1 Hz bin that some chunk of some filtered
  channel had a removed frequency in, in ascending order, and the row's count is the number
  of such chunks. In \<^verbatim>\<open>mt_filter.py\<close> the count of a bin is the number of removed
  frequencies, over the chunks of the one channel, that round to it.
\<close>

lemma count_list_concat:
  "count_list (concat xss) k = sum_list (map (\<lambda>xs. count_list xs k) xss)"
  by (induction xss) simp_all

lemma count_list_distinct:
  "distinct ys \<Longrightarrow> count_list ys k = (if k \<in> set ys then 1 else 0)"
  by (induction ys) auto

lemma count_list_np_unique:
  "count_list (np_unique xs) k = (if k \<in> set xs then 1 else 0)"
  by (simp add: np_unique_def count_list_distinct)

lemma sum_list_indicator:
  "sum_list (map (\<lambda>x. if P x then 1 else 0) xs) = length (filter P xs)"
  by (induction xs) simp_all

lemma map_of_Counter:
  "map_of (map (\<lambda>k. (k, f k)) ks) k = (if k \<in> set ks then Some (f k) else None)"
  by (induction ks) auto

lemma counts_get_Counter: "counts_get (Counter items) k = count_list items k"
  by (simp add: counts_get_def Counter_def map_of_Counter count_list_0_iff)

lemma map_fst_Counter: "map fst (Counter items) = remdups items"
  by (simp add: Counter_def comp_def)

lemma found_freqs_Counter:
  "found_freqs (make_report lf (Counter items))
     = map (\<lambda>k. (k, count_list items k)) (sorted_list_of_set (set items))"
  by (simp add: make_report_def counts_get_Counter map_fst_Counter sorted_list_of_set_sort_remdups)

lemma count_freqs_report:
  "found_freqs (make_report lf (count_freqs freq_list))
     = map (\<lambda>k. (k, length (filter (\<lambda>ff. k \<in> np_round ` set ff) (concat freq_list))))
         (sorted_list_of_set (np_round ` (\<Union>ff \<in> set (concat freq_list). set ff)))
   \<and> sorted (map fst (found_freqs (make_report lf (count_freqs freq_list))))
   \<and> distinct (map fst (found_freqs (make_report lf (count_freqs freq_list))))
   \<and> kind (make_report lf (count_freqs freq_list))
       = (if lf = None then ''Detected'' else ''Removed'')"
proof -
  let ?chunks = "concat freq_list"
  let ?items = "concat (map (\<lambda>ff. np_unique (map np_round ff)) ?chunks)"
  have cnt: "count_list ?items k = length (filter (\<lambda>ff. k \<in> np_round ` set ff) ?chunks)" for k
    by (simp add: count_list_concat comp_def count_list_np_unique sum_list_indicator)
  have keys: "set ?items = np_round ` (\<Union>ff \<in> set ?chunks. set ff)"
    by (auto simp: np_unique_def)
  have rows: "found_freqs (make_report lf (count_freqs freq_list))
     = map (\<lambda>k. (k, length (filter (\<lambda>ff. k \<in> np_round ` set ff) ?chunks)))
         (sorted_list_of_set (np_round ` (\<Union>ff \<in> set ?chunks. set ff)))"
    unfolding count_freqs_def found_freqs_Counter cnt keys ..
  show ?thesis
    unfolding rows by (simp add: comp_def make_report_def)
qed

lemma ieeg_count_freqs_report:
  "found_freqs (make_report lf (ieeg_count_freqs rm))
     = map (\<lambda>k. (k, length (filter (\<lambda>f. np_round f = k) (concat rm))))
         (sorted_list_of_set (np_round ` set (concat rm)))"
proof -
  have items: "concat (map (\<lambda>ff. np_unique [np_round ff]) xs) = map np_round xs" for xs
    by (induction xs) (simp_all add: np_unique_def)
  have cnt: "count_list (map np_round xs) k = length (filter (\<lambda>f. np_round f = k) xs)" for xs k
    by (induction xs) simp_all
  show ?thesis
    unfolding ieeg_count_freqs_def found_freqs_Counter items cnt by simp
qed


text \<open>
  C5 in \<^verbatim>\<open>mt_filter.py\<close>: one chunk from which 59.6 Hz and 60.4 Hz were removed is
  reported as 2 windows at 60 Hz; \<^verbatim>\<open>filter.py\<close> reports the same chunk as 1 window.
\<close>

theorem ieeg_report_counts_frequencies_not_chunks:
  "found_freqs (make_report None (ieeg_count_freqs [[596 / 10, 604 / 10]])) = [(60, 2)]
   \<and> found_freqs (make_report None (count_freqs [[[596 / 10, 604 / 10]]])) = [(60, 1)]"
  by (simp add: ieeg_count_freqs_def count_freqs_def Counter_def make_report_def counts_get_def
      np_unique_def np_round_def)

text \<open>The same through \<open>WindowingRemover.__call__\<close>, on a channel of a single chunk.\<close>

lemma ex_two_bins_one_chunk:
  "WindowingRemover_call
     (example_deps\<lparr>spectrum := (\<lambda>x window_fun sfreq.
        [\<lparr>bin_freq = 596 / 10, bin_f_stat = 5, bin_A = 0\<rparr>,
         \<lparr>bin_freq = 604 / 10, bin_f_stat = 5, bin_A = 0\<rparr>])\<rparr>)
     (ieeg_line_filter_process 1000 None None 2 True True (1 / 20) (Some 1)) [a, b]
   = Inr ([a, b], \<lparr>kind = ''Detected'', found_freqs = [(60, 2)]\<rparr>)"
  by (simp add: WindowingRemover_call_def WindowingRemover_feed_def run_defs upt_0_2
      make_report_def ieeg_count_freqs_def Counter_def counts_get_def np_unique_def np_round_def)

end
